theory Spec2Isabelle
  imports Main
begin

section \<open>Data model\<close>

text \<open>
  Timestamps are JavaScript's milliseconds since the epoch (\<open>Date.now()\<close>, the value of
  a \<open>Date\<close>); document identifiers (\<open>_id\<close>) are opaque and modelled as natural numbers.
\<close>

type_synonym time = int
type_synonym uid = nat

text \<open>The schema's \<open>role\<close> enum: "user", "admin", "moderator".\<close>

datatype role = RoleUser | RoleAdmin | RoleModerator

text \<open>One element of the schema's \<open>refreshTokens\<close> array.\<close>

record refresh_entry =
  token :: string
  createdAt :: time
  expiresAt :: time

text \<open>
  A user document of \<open>userSchema\<close>. A field the schema does not require is an option:
  \<open>None\<close> is the field being absent from the document (\<open>$unset\<close> removes it). The
  fields no modelled operation reads or writes (verificationToken, resetPasswordToken,
  resetPasswordExpire, profile, the timestamps) are left out.
\<close>

record user =
  uid :: uid
  fullName :: string
  email :: string
  password :: string
  role :: role
  isActive :: bool
  isVerified :: bool
  lastLogin :: "time option"
  loginAttempts :: "int option"
  lockUntil :: "time option"
  refreshTokens :: "refresh_entry list"

text \<open>
  Reading \<open>this.loginAttempts\<close>: the schema default 0 stands in for an absent field
  when a document is hydrated.
\<close>

definition getLoginAttempts :: "user \<Rightarrow> int" where
  "getLoginAttempts u = (case loginAttempts u of None \<Rightarrow> 0 | Some n \<Rightarrow> n)"

section \<open>The users collection\<close>

text \<open>
  The collection is the list of its documents. A query returns the first match;
  \<open>updateOne\<close> changes the first document with the given \<open>_id\<close> and is the only
  way a stored document changes. A hydrated document (the \<open>user\<close> a controller holds)
  is a copy: \<open>doc.updateOne(...)\<close> changes the stored document only, and \<open>doc.save()\<close>
  writes the paths that were changed on the copy. For \<open>refreshTokens\<close> the model writes
  the copy's array over the stored one. That is what the code does for a copy whose
  registry is the stored one, as that of every copy a handler hydrates is: Mongoose
  sends a \<open>push()\<close> as \<open>$push\<close> and an assigned array as \<open>$set\<close> under the version key,
  and both leave the stored array equal to the copy's. A copy gone stale (the stored
  registry changed after it was hydrated) is not modelled: the statements about the
  registry's methods are for a copy that holds the stored registry.
  \<open>save()\<close> also runs the schema's validators: the documents of the collection are
  taken to pass them, as those that \<open>register\<close> stores do, and a refresh token to be
  stored is taken to be a non-empty string, as a signed token is (\<open>token\<close> is
  \<open>required\<close>), so that only the first \<open>save()\<close> of a new document can reject.
\<close>

type_synonym store = "user list"

definition findById :: "store \<Rightarrow> uid \<Rightarrow> user option" where
  "findById s i = find (\<lambda>u. uid u = i) s"

text \<open>\<open>String.prototype.toLowerCase\<close> on the ASCII letters (a \<open>char\<close> is a byte).\<close>

definition lower_char :: "char \<Rightarrow> char" where
  "lower_char c =
     (let n = (of_char c :: nat)
      in if 65 \<le> n \<and> n \<le> 90 then char_of (n + 32) else c)"

definition toLowerCase :: "string \<Rightarrow> string" where
  "toLowerCase str = map lower_char str"

text \<open>\<open>String.prototype.trim\<close> on the ASCII white space.\<close>

definition is_space :: "char \<Rightarrow> bool" where
  "is_space c = ((of_char c :: nat) \<in> {9, 10, 11, 12, 13, 32})"

definition trim :: "string \<Rightarrow> string" where
  "trim str = rev (dropWhile is_space (rev (dropWhile is_space str)))"

text \<open>
  \<open>findOne({email: e})\<close>: the filter is cast with the schema's setters for \<open>email\<close>
  (\<open>lowercase\<close>, \<open>trim\<close>) before it is compared with the stored addresses.
\<close>

definition cast_email :: "string \<Rightarrow> string" where
  "cast_email e = trim (toLowerCase e)"

definition findOne_email :: "store \<Rightarrow> string \<Rightarrow> user option" where
  "findOne_email s e = find (\<lambda>u. email u = cast_email e) s"

fun updateOne :: "uid \<Rightarrow> (user \<Rightarrow> user) \<Rightarrow> store \<Rightarrow> store" where
  "updateOne i f [] = []"
| "updateOne i f (u # us) = (if uid u = i then f u # us else u # updateOne i f us)"

text \<open>\<open>userSchema.statics.findByEmail\<close>.\<close>

definition findByEmail :: "store \<Rightarrow> string \<Rightarrow> user option" where
  "findByEmail s e = findOne_email s (toLowerCase e)"

section \<open>Account lockout\<close>

text \<open>The virtual \<open>isLocked\<close>: \<open>!!(this.lockUntil && this.lockUntil > Date.now())\<close>.\<close>

definition isLocked :: "time \<Rightarrow> user \<Rightarrow> bool" where
  "isLocked now u = (case lockUntil u of None \<Rightarrow> False | Some l \<Rightarrow> l > now)"

text \<open>Two hours in milliseconds: \<open>2 * 60 * 60 * 1000\<close>.\<close>

definition lock_duration :: int where
  "lock_duration = 2 * 60 * 60 * 1000"

text \<open>
  \<open>incLoginAttempts\<close>. The tests read the hydrated document \<open>d\<close>; the update
  (\<open>$unset\<close>, \<open>$set\<close>, \<open>$inc\<close>) is applied to the stored document. \<open>$inc\<close> of an absent
  field starts from 0.
\<close>

definition expired_lock :: "time \<Rightarrow> user \<Rightarrow> bool" where
  "expired_lock now d = (case lockUntil d of None \<Rightarrow> False | Some l \<Rightarrow> l < now)"

definition incLoginAttempts :: "time \<Rightarrow> store \<Rightarrow> user \<Rightarrow> store" where
  "incLoginAttempts now s d =
     (if expired_lock now d
      then updateOne (uid d) (\<lambda>u. u\<lparr>lockUntil := None, loginAttempts := Some 1\<rparr>) s
      else if getLoginAttempts d + 1 \<ge> 5 \<and> lockUntil d = None
      then updateOne (uid d)
             (\<lambda>u. u\<lparr>loginAttempts := Some (getLoginAttempts u + 1),
                     lockUntil := Some (now + lock_duration)\<rparr>) s
      else updateOne (uid d) (\<lambda>u. u\<lparr>loginAttempts := Some (getLoginAttempts u + 1)\<rparr>) s)"

text \<open>\<open>resetLoginAttempts\<close>: \<open>$unset\<close> of both fields on the stored document.\<close>

definition resetLoginAttempts :: "store \<Rightarrow> user \<Rightarrow> store" where
  "resetLoginAttempts s d =
     updateOne (uid d) (\<lambda>u. u\<lparr>loginAttempts := None, lockUntil := None\<rparr>) s"

text \<open>\<open>updateLastLogin\<close>: assigns on the copy and saves that path.\<close>

definition updateLastLogin :: "time \<Rightarrow> store \<Rightarrow> user \<Rightarrow> store \<times> user" where
  "updateLastLogin now s d =
     (let d' = d\<lparr>lastLogin := Some now\<rparr>
      in (updateOne (uid d') (\<lambda>u. u\<lparr>lastLogin := lastLogin d'\<rparr>) s, d'))"

section \<open>Configuration and external libraries\<close>

text \<open>The options of \<open>config\<close> that the model and the controller read.\<close>

record config =
  JWT_SECRET :: string
  JWT_EXPIRES_IN :: string
  JWT_REFRESH_SECRET :: string
  JWT_REFRESH_EXPIRES_IN :: string
  BCRYPT_ROUNDS :: nat
  isProduction :: bool
  COOKIE_SAME_SITE :: string

text \<open>
  What the model and the controller sign: \<open>{id, email, displayName, role}\<close> for an access
  token and \<open>{id, tokenType}\<close> for a refresh token. \<open>jsonwebtoken\<close> adds \<open>iat\<close> and
  \<open>exp\<close>, both in whole seconds.
\<close>

datatype jwt_payload =
  AccessPayload uid string string role
| RefreshPayload uid string

fun payload_id :: "jwt_payload \<Rightarrow> uid" where
  "payload_id (AccessPayload i e n r) = i"
| "payload_id (RefreshPayload i t) = i"

record jwt_claims =
  c_payload :: jwt_payload
  c_iat :: int
  c_exp :: int

text \<open>
  The libraries the repository calls and does not contain (\<open>bcryptjs\<close>,
  \<open>jsonwebtoken\<close>, the regular-expression engine) are parameters:
  \<^item> \<open>bcrypt_compare candidate hash\<close> and \<open>bcrypt_hash password rounds\<close>;
  \<^item> \<open>timespan\<close>: the seconds an \<open>expiresIn\<close> string stands for, \<open>None\<close> where
    \<open>jwt.sign\<close> rejects the string;
  \<^item> \<open>jwt_encode claims secret\<close>: the signed compact token; \<open>jwt_decode token secret\<close>:
    the claims of a token whose signature is good under the secret;
  \<^item> \<open>email_regex\<close>: the schema's \<open>match\<close> pattern for \<open>email\<close>.

  With them comes the time zone of the process, as ECMAScript's \<open>LocalTZA(t, isUTC)\<close>:
  the offset in milliseconds of local time from UTC, at the instant \<open>t\<close> when \<open>isUTC\<close>
  and at the local time \<open>t\<close> otherwise.
\<close>

record libs =
  bcrypt_compare :: "string \<Rightarrow> string \<Rightarrow> bool"
  bcrypt_hash :: "string \<Rightarrow> nat \<Rightarrow> string"
  timespan :: "string \<Rightarrow> int option"
  jwt_encode :: "jwt_claims \<Rightarrow> string \<Rightarrow> string"
  jwt_decode :: "string \<Rightarrow> string \<Rightarrow> jwt_claims option"
  email_regex :: "string \<Rightarrow> bool"
  local_tza :: "time \<Rightarrow> bool \<Rightarrow> int"

text \<open>
  \<open>jwt.sign(payload, secret, {expiresIn})\<close>: \<open>iat\<close> is the clock in whole seconds,
  \<open>exp\<close> is \<open>iat\<close> plus the time span; \<open>None\<close> is the call throwing.
\<close>

definition jwt_sign :: "libs \<Rightarrow> jwt_payload \<Rightarrow> string \<Rightarrow> string \<Rightarrow> time \<Rightarrow> string option" where
  "jwt_sign L p secret expiresIn now =
     (case timespan L expiresIn of
        None \<Rightarrow> None
      | Some span \<Rightarrow>
          Some (jwt_encode L \<lparr>c_payload = p, c_iat = now div 1000,
                              c_exp = now div 1000 + span\<rparr> secret))"

text \<open>\<open>jwt.verify(token, secret)\<close>: \<open>None\<close> is the call throwing (bad signature or
  shape, or the clock in seconds having reached \<open>exp\<close>).\<close>

definition jwt_verify :: "libs \<Rightarrow> string \<Rightarrow> string \<Rightarrow> time \<Rightarrow> jwt_claims option" where
  "jwt_verify L tok secret now =
     (case jwt_decode L tok secret of
        None \<Rightarrow> None
      | Some c \<Rightarrow> if now div 1000 \<ge> c_exp c then None else Some c)"

definition comparePassword :: "libs \<Rightarrow> user \<Rightarrow> string \<Rightarrow> bool" where
  "comparePassword L d candidate = bcrypt_compare L candidate (password d)"

definition generateAccessToken :: "libs \<Rightarrow> config \<Rightarrow> time \<Rightarrow> user \<Rightarrow> string option" where
  "generateAccessToken L cfg now d =
     jwt_sign L (AccessPayload (uid d) (email d) (fullName d) (role d))
       (JWT_SECRET cfg) (JWT_EXPIRES_IN cfg) now"

definition generateRefreshToken :: "libs \<Rightarrow> config \<Rightarrow> time \<Rightarrow> user \<Rightarrow> string option" where
  "generateRefreshToken L cfg now d =
     jwt_sign L (RefreshPayload (uid d) ''refresh'')
       (JWT_REFRESH_SECRET cfg) (JWT_REFRESH_EXPIRES_IN cfg) now"

text \<open>The life time, in milliseconds, that the configuration gives a signed refresh
  token.\<close>

definition refresh_ttl_ms :: "libs \<Rightarrow> config \<Rightarrow> int option" where
  "refresh_ttl_ms L cfg = map_option (\<lambda>span. span * 1000) (timespan L (JWT_REFRESH_EXPIRES_IN cfg))"

section \<open>Refresh-token registry\<close>

text \<open>\<open>save()\<close> after the copy's \<open>refreshTokens\<close> was assigned or pushed to.\<close>

definition save_refreshTokens :: "store \<Rightarrow> user \<Rightarrow> store" where
  "save_refreshTokens s d = updateOne (uid d) (\<lambda>u. u\<lparr>refreshTokens := refreshTokens d\<rparr>) s"

text \<open>\<open>Array.prototype.slice(-n)\<close> for positive \<open>n\<close>: the last \<open>n\<close> elements, all of them
  when there are fewer.\<close>

definition slice_last :: "nat \<Rightarrow> 'a list \<Rightarrow> 'a list" where
  "slice_last n xs = drop (length xs - n) xs"

text \<open>Seven days of 24 hours in milliseconds.\<close>

definition seven_days :: int where
  "seven_days = 7 * 24 * 60 * 60 * 1000"

text \<open>
  \<open>expiresAt = new Date(); expiresAt.setDate(expiresAt.getDate() + 7)\<close>. \<open>setDate\<close>
  works on local time: the instant is taken to local time
  (\<open>LocalTime(t) = t + LocalTZA(t, true)\<close>), the day of the month is moved by seven with
  the time within the day kept, which adds seven days of 24 hours to the local time, and
  the result is taken back (\<open>UTC(t) = t - LocalTZA(t, false)\<close>). Where the zone's offset
  is the same at both ends this is seven days of 24 hours later; across a change of the
  offset it is not. Instants are taken to lie within the range of \<open>Date\<close>, as the
  clock's do.
\<close>

definition setDate_plus_7 :: "libs \<Rightarrow> time \<Rightarrow> time" where
  "setDate_plus_7 L now =
     (let local = now + local_tza L now True;
          moved = local + seven_days
      in moved - local_tza L moved False)"

text \<open>The element \<open>addRefreshToken\<close> pushes; \<open>createdAt\<close> is the schema default
  \<open>Date.now\<close>.\<close>

definition new_entry :: "libs \<Rightarrow> time \<Rightarrow> string \<Rightarrow> refresh_entry" where
  "new_entry L now tok = \<lparr>token = tok, createdAt = now, expiresAt = setDate_plus_7 L now\<rparr>"

definition pushRefreshToken :: "libs \<Rightarrow> time \<Rightarrow> string \<Rightarrow> refresh_entry list \<Rightarrow> refresh_entry list" where
  "pushRefreshToken L now tok ts =
     (let pushed = ts @ [new_entry L now tok]
      in if length pushed > 5 then slice_last 5 pushed else pushed)"

definition addRefreshToken :: "libs \<Rightarrow> time \<Rightarrow> string \<Rightarrow> store \<Rightarrow> user \<Rightarrow> store \<times> user" where
  "addRefreshToken L now tok s d =
     (let d' = d\<lparr>refreshTokens := pushRefreshToken L now tok (refreshTokens d)\<rparr>
      in (save_refreshTokens s d', d'))"

definition removeRefreshToken :: "string \<Rightarrow> store \<Rightarrow> user \<Rightarrow> store \<times> user" where
  "removeRefreshToken tok s d =
     (let d' = d\<lparr>refreshTokens := filter (\<lambda>t. token t \<noteq> tok) (refreshTokens d)\<rparr>
      in (save_refreshTokens s d', d'))"

definition clearAllRefreshTokens :: "store \<Rightarrow> user \<Rightarrow> store \<times> user" where
  "clearAllRefreshTokens s d =
     (let d' = d\<lparr>refreshTokens := []\<rparr> in (save_refreshTokens s d', d'))"

definition cleanupExpiredTokens :: "time \<Rightarrow> store \<Rightarrow> user \<Rightarrow> store \<times> user" where
  "cleanupExpiredTokens now s d =
     (let d' = d\<lparr>refreshTokens := filter (\<lambda>t. expiresAt t > now) (refreshTokens d)\<rparr>
      in (save_refreshTokens s d', d'))"

section \<open>Requests and responses\<close>

text \<open>
  What a handler reads of the request: the result of the validation middleware
  (\<open>validationResult(req)\<close>), the body, the \<open>refreshToken\<close> cookie and \<open>req.user?.id\<close>
  (set by the authentication middleware, absent on a public route).
\<close>

record request =
  validation_errors :: "string list"
  body_fullName :: string
  body_email :: string
  body_password :: string
  body_extra :: "(string \<times> string) list"
  cookie_refreshToken :: "string option"
  req_user :: "uid option"

datatype cookie_action =
  NoCookie
| SetRefreshCookie string bool string int
| ClearRefreshCookie

datatype resp_data =
  RegisteredData uid string string role bool string
| LoginData uid string string role bool "time option" string
| TokenData string

record response =
  status :: nat
  success :: bool
  message :: string
  errors :: "string list"
  data :: "resp_data option"
  cookie :: cookie_action

definition json_fail :: "nat \<Rightarrow> string \<Rightarrow> response" where
  "json_fail st msg =
     \<lparr>status = st, success = False, message = msg, errors = [], data = None,
      cookie = NoCookie\<rparr>"

definition json_ok :: "nat \<Rightarrow> string \<Rightarrow> resp_data option \<Rightarrow> cookie_action \<Rightarrow> response" where
  "json_ok st msg d c =
     \<lparr>status = st, success = True, message = msg, errors = [], data = d, cookie = c\<rparr>"

definition refresh_cookie :: "config \<Rightarrow> string \<Rightarrow> cookie_action" where
  "refresh_cookie cfg tok =
     SetRefreshCookie tok (isProduction cfg) (COOKIE_SAME_SITE cfg) (7 * 24 * 60 * 60 * 1000)"

text \<open>The specification's names for the controller's failure responses.\<close>

datatype failure =
  ValidationFailed | Conflict | InvalidCredentials | AccountLocked | AccountDisabled
| Unauthenticated | InvalidToken | Internal

definition failure_of :: "response \<Rightarrow> failure option" where
  "failure_of r =
     (if success r then None
      else if status r = 400 then Some ValidationFailed
      else if status r = 409 then Some Conflict
      else if status r = 423 then Some AccountLocked
      else if status r = 403 then Some AccountDisabled
      else if status r = 401 \<and> message r = ''Invalid credentials'' then Some InvalidCredentials
      else if status r = 401 \<and> message r = ''Refresh token not provided'' then Some Unauthenticated
      else if status r = 401 then Some InvalidToken
      else Some Internal)"

section \<open>Creating a user\<close>

text \<open>
  \<open>new User({fullName, email, password})\<close>: the schema's setters (\<open>trim\<close>,
  \<open>lowercase\<close>) on the three given paths, its defaults on the others; \<open>i\<close> is the
  fresh \<open>_id\<close>.
\<close>

definition new_User :: "uid \<Rightarrow> string \<Rightarrow> string \<Rightarrow> string \<Rightarrow> user" where
  "new_User i fn em pw =
     \<lparr>uid = i, fullName = trim fn, email = trim (toLowerCase em), password = pw,
      role = RoleUser, isActive = True, isVerified = False, lastLogin = None,
      loginAttempts = Some 0, lockUntil = None, refreshTokens = []\<rparr>"

text \<open>The schema's validators, run by \<open>save()\<close> before the hooks.\<close>

definition schema_valid :: "libs \<Rightarrow> user \<Rightarrow> bool" where
  "schema_valid L u =
     (fullName u \<noteq> [] \<and> 2 \<le> length (fullName u) \<and> length (fullName u) \<le> 100
      \<and> email u \<noteq> [] \<and> email_regex L (email u)
      \<and> password u \<noteq> [] \<and> 8 \<le> length (password u))"

text \<open>Inserting under the unique indexes on \<open>_id\<close> and \<open>email\<close>; \<open>None\<close> is the
  duplicate-key error.\<close>

definition insertOne :: "store \<Rightarrow> user \<Rightarrow> store option" where
  "insertOne s u =
     (if findById s (uid u) \<noteq> None \<or> list_ex (\<lambda>v. email v = email u) s then None
      else Some (s @ [u]))"

text \<open>
  The first \<open>save()\<close> of a new document: validation, then the \<open>pre("save")\<close> hook that
  hashes the password (\<open>config.BCRYPT_ROUNDS || 12\<close> rounds), then the insert. \<open>None\<close>
  is \<open>save()\<close> rejecting.
\<close>

definition save_new :: "libs \<Rightarrow> config \<Rightarrow> store \<Rightarrow> user \<Rightarrow> (store \<times> user) option" where
  "save_new L cfg s d =
     (if \<not> schema_valid L d then None
      else
        let rounds = (if BCRYPT_ROUNDS cfg = 0 then 12 else BCRYPT_ROUNDS cfg);
            d' = d\<lparr>password := bcrypt_hash L (password d) rounds\<rparr>
        in case insertOne s d' of None \<Rightarrow> None | Some s' \<Rightarrow> Some (s', d'))"

section \<open>The controller\<close>

text \<open>
  Each handler runs at one instant \<open>now\<close> and returns the collection after it and the
  response. An exception inside a handler's \<open>try\<close> leaves what was written before it
  and answers with the handler's \<open>catch\<close> response. Failures of the database itself
  are not modelled.
\<close>

definition validation_failed :: "request \<Rightarrow> response" where
  "validation_failed req = (json_fail 400 ''Validation failed'')\<lparr>errors := validation_errors req\<rparr>"

definition register :: "libs \<Rightarrow> config \<Rightarrow> time \<Rightarrow> uid \<Rightarrow> store \<Rightarrow> request \<Rightarrow> store \<times> response" where
  "register L cfg now i s req =
     (if validation_errors req \<noteq> [] then (s, validation_failed req)
      else
        case findOne_email s (toLowerCase (body_email req)) of
          Some existingUser \<Rightarrow> (s, json_fail 409 ''User already exists with this email'')
        | None \<Rightarrow>
            (case save_new L cfg s
                    (new_User i (body_fullName req) (toLowerCase (body_email req))
                       (body_password req)) of
               None \<Rightarrow> (s, json_fail 500 ''Internal server error during registration'')
             | Some (s1, d1) \<Rightarrow>
                 (case generateAccessToken L cfg now d1 of
                    None \<Rightarrow> (s1, json_fail 500 ''Internal server error during registration'')
                  | Some accessToken \<Rightarrow>
                      (case generateRefreshToken L cfg now d1 of
                         None \<Rightarrow>
                           (s1, json_fail 500 ''Internal server error during registration'')
                       | Some refreshTok \<Rightarrow>
                           (let (s2, d2) = addRefreshToken L now refreshTok s1 d1
                            in (s2,
                                json_ok 201 ''User registered successfully''
                                  (Some (RegisteredData (uid d2) (fullName d2) (email d2)
                                     (role d2) (isVerified d2) accessToken))
                                  (refresh_cookie cfg refreshTok)))))))"

text \<open>The part of \<open>login\<close> after the password was found valid.\<close>

definition login_success :: "libs \<Rightarrow> config \<Rightarrow> time \<Rightarrow> store \<Rightarrow> user \<Rightarrow> store \<times> response" where
  "login_success L cfg now s d =
     (let s1 = resetLoginAttempts s d;
          (s2, d2) = updateLastLogin now s1 d;
          (s3, d3) = cleanupExpiredTokens now s2 d2
      in case generateAccessToken L cfg now d3 of
           None \<Rightarrow> (s3, json_fail 500 ''Internal server error during login'')
         | Some accessToken \<Rightarrow>
             (case generateRefreshToken L cfg now d3 of
                None \<Rightarrow> (s3, json_fail 500 ''Internal server error during login'')
              | Some refreshTok \<Rightarrow>
                  (let (s4, d4) = addRefreshToken L now refreshTok s3 d3
                   in (s4,
                       json_ok 200 ''Login successful''
                         (Some (LoginData (uid d4) (fullName d4) (email d4) (role d4)
                            (isVerified d4) (lastLogin d4) accessToken))
                         (refresh_cookie cfg refreshTok)))))"

definition login :: "libs \<Rightarrow> config \<Rightarrow> time \<Rightarrow> store \<Rightarrow> request \<Rightarrow> store \<times> response" where
  "login L cfg now s req =
     (if validation_errors req \<noteq> [] then (s, validation_failed req)
      else
        case findByEmail s (body_email req) of
          None \<Rightarrow> (s, json_fail 401 ''Invalid credentials'')
        | Some d \<Rightarrow>
            if isLocked now d
            then (s, json_fail 423
                       ''Account temporarily locked due to too many failed login attempts'')
            else if \<not> isActive d then (s, json_fail 403 ''Account is deactivated'')
            else if \<not> comparePassword L d (body_password req)
            then (incLoginAttempts now s d, json_fail 401 ''Invalid credentials'')
            else login_success L cfg now s d)"

text \<open>\<open>user.refreshTokens.some(t => t.token === refreshToken)\<close>.\<close>

definition tokenExists :: "user \<Rightarrow> string \<Rightarrow> bool" where
  "tokenExists d tok = list_ex (\<lambda>t. token t = tok) (refreshTokens d)"

text \<open>The part of \<open>refreshToken\<close> after the token was found in the user's registry.\<close>

definition rotate :: "libs \<Rightarrow> config \<Rightarrow> time \<Rightarrow> store \<Rightarrow> user \<Rightarrow> string \<Rightarrow> store \<times> response" where
  "rotate L cfg now s d tok =
     (case generateAccessToken L cfg now d of
        None \<Rightarrow> (s, json_fail 401 ''Invalid or expired refresh token'')
      | Some newAccessToken \<Rightarrow>
          (case generateRefreshToken L cfg now d of
             None \<Rightarrow> (s, json_fail 401 ''Invalid or expired refresh token'')
           | Some newRefreshToken \<Rightarrow>
               (let (s1, d1) = removeRefreshToken tok s d;
                    (s2, d2) = addRefreshToken L now newRefreshToken s1 d1
                in (s2,
                    json_ok 200 ''Token refreshed successfully''
                      (Some (TokenData newAccessToken))
                      (refresh_cookie cfg newRefreshToken)))))"

definition refreshToken :: "libs \<Rightarrow> config \<Rightarrow> time \<Rightarrow> store \<Rightarrow> request \<Rightarrow> store \<times> response" where
  "refreshToken L cfg now s req =
     (case cookie_refreshToken req of
        None \<Rightarrow> (s, json_fail 401 ''Refresh token not provided'')
      | Some tok \<Rightarrow>
          if tok = [] then (s, json_fail 401 ''Refresh token not provided'')
          else
            (case jwt_verify L tok (JWT_REFRESH_SECRET cfg) now of
               None \<Rightarrow> (s, json_fail 401 ''Invalid or expired refresh token'')
             | Some decoded \<Rightarrow>
                 (case findById s (payload_id (c_payload decoded)) of
                    None \<Rightarrow> (s, json_fail 401 ''User not found'')
                  | Some d \<Rightarrow>
                      if \<not> tokenExists d tok then (s, json_fail 401 ''Invalid refresh token'')
                      else rotate L cfg now s d tok)))"

definition logout_ok :: response where
  "logout_ok = json_ok 200 ''Logout successful'' None ClearRefreshCookie"

definition logout :: "store \<Rightarrow> request \<Rightarrow> store \<times> response" where
  "logout s req =
     (case cookie_refreshToken req of
        None \<Rightarrow> (s, logout_ok)
      | Some tok \<Rightarrow>
          (case req_user req of
             None \<Rightarrow> (s, logout_ok)
           | Some userId \<Rightarrow>
               if tok = [] then (s, logout_ok)
               else
                 (case findById s userId of
                    None \<Rightarrow> (s, logout_ok)
                  | Some d \<Rightarrow> (fst (removeRefreshToken tok s d), logout_ok))))"

text \<open>\<open>logoutAll\<close> reads \<open>req.user.id\<close>: with no \<open>req.user\<close> that throws.\<close>

definition logoutAll :: "store \<Rightarrow> request \<Rightarrow> store \<times> response" where
  "logoutAll s req =
     (case req_user req of
        None \<Rightarrow> (s, json_fail 500 ''Internal server error during logout'')
      | Some userId \<Rightarrow>
          (case findById s userId of
             None \<Rightarrow>
               (s, json_ok 200 ''Logged out from all devices successfully'' None
                     ClearRefreshCookie)
           | Some d \<Rightarrow>
               (fst (clearAllRefreshTokens s d),
                json_ok 200 ''Logged out from all devices successfully'' None
                  ClearRefreshCookie)))"

section \<open>Runs of requests\<close>

text \<open>A client making login requests one after the other: the collection is threaded
  through, the responses are collected.\<close>

fun login_seq :: "libs \<Rightarrow> config \<Rightarrow> store \<Rightarrow> (time \<times> request) list \<Rightarrow> store \<times> response list" where
  "login_seq L cfg s [] = (s, [])"
| "login_seq L cfg s ((t, r) # trs) =
     (let (s1, a) = login L cfg t s r;
          (s2, as) = login_seq L cfg s1 trs
      in (s2, a # as))"

text \<open>The response of \<open>login\<close> to a locked account.\<close>

definition locked_response :: response where
  "locked_response =
     json_fail 423 ''Account temporarily locked due to too many failed login attempts''"



section \<open>Example data\<close>

text \<open>
  A small instance of the libraries, enough to run the handlers: the hash of a password
  is the password behind a prefix; a token spells out the secret, the kind and the
  user (\<open>R\<close> or \<open>A\<close>, then one \<open>u\<close> per unit of the id), \<open>iat\<close> (one \<open>s\<close> per second)
  and the life time (one \<open>d\<close> per day), separated by bars. As with \<open>jsonwebtoken\<close>,
  equal claims under one secret give equal tokens.
\<close>

definition demo_encode :: "jwt_claims \<Rightarrow> string \<Rightarrow> string" where
  "demo_encode c secret =
     secret @ ''|''
       @ (case c_payload c of AccessPayload i e n r \<Rightarrow> ''A'' | RefreshPayload i t \<Rightarrow> ''R'')
       @ replicate (payload_id (c_payload c)) (CHR ''u'')
       @ ''|'' @ replicate (nat (c_iat c)) (CHR ''s'')
       @ ''|'' @ replicate (nat ((c_exp c - c_iat c) div 86400)) (CHR ''d'')"

fun fields :: "string \<Rightarrow> string list" where
  "fields [] = [[]]"
| "fields (c # cs) =
     (if c = CHR ''|'' then [] # fields cs
      else (case fields cs of [] \<Rightarrow> [[c]] | f # fs \<Rightarrow> (c # f) # fs))"

definition demo_decode :: "string \<Rightarrow> string \<Rightarrow> jwt_claims option" where
  "demo_decode tok secret =
     (case fields tok of
        [sec, who, secs, days] \<Rightarrow>
          if sec = secret \<and> take 1 who = ''R''
             \<and> list_all (\<lambda>c. c = CHR ''u'') (drop 1 who)
             \<and> list_all (\<lambda>c. c = CHR ''s'') secs
             \<and> list_all (\<lambda>c. c = CHR ''d'') days
          then Some \<lparr>c_payload = RefreshPayload (length who - 1) ''refresh'',
                     c_iat = int (length secs),
                     c_exp = int (length secs) + 86400 * int (length days)\<rparr>
          else None
      | _ \<Rightarrow> None)"

definition demo_libs :: libs where
  "demo_libs =
     \<lparr>bcrypt_compare = (\<lambda>candidate hash. hash = ''hash:'' @ candidate),
      bcrypt_hash = (\<lambda>pw rounds. ''hash:'' @ pw),
      timespan = (\<lambda>str. if str = ''15m'' then Some 900
                         else if str = ''1d'' then Some 86400
                         else if str = ''7d'' then Some 604800 else None),
      jwt_encode = demo_encode,
      jwt_decode = demo_decode,
      email_regex = (\<lambda>e. CHR ''@'' \<in> set e),
      local_tza = (\<lambda>t isUTC. 0)\<rparr>"

text \<open>
  The same libraries in a zone that is one hour ahead of UTC until the instant
  259200000 (three days after the epoch) and two hours ahead from then on. A local time
  that the change skips is read with the offset before the change, as ECMAScript
  prescribes.
\<close>

definition dst_libs :: libs where
  "dst_libs =
     demo_libs\<lparr>local_tza :=
       (\<lambda>t isUTC. if isUTC then (if t < 259200000 then 3600000 else 7200000)
                   else (if t < 259200000 + 7200000 then 3600000 else 7200000))\<rparr>"

definition demo_config :: config where
  "demo_config =
     \<lparr>JWT_SECRET = ''sa'', JWT_EXPIRES_IN = ''15m'', JWT_REFRESH_SECRET = ''sr'',
      JWT_REFRESH_EXPIRES_IN = ''7d'', BCRYPT_ROUNDS = 12, isProduction = False,
      COOKIE_SAME_SITE = ''lax''\<rparr>"

text \<open>The same configuration with a refresh-token life time of one day.\<close>

definition one_day_config :: config where
  "one_day_config = demo_config\<lparr>JWT_REFRESH_EXPIRES_IN := ''1d''\<rparr>"

definition alice :: user where
  "alice =
     \<lparr>uid = 1, fullName = ''Alice'', email = ''alice@example.com'',
      password = ''hash:Secur3!pass'', role = RoleUser, isActive = True, isVerified = False,
      lastLogin = None, loginAttempts = Some 0, lockUntil = None, refreshTokens = []\<rparr>"

text \<open>Alice after four counted failures, with a lock that ends at the instant 1000.\<close>

definition boundary_user :: user where
  "boundary_user = alice\<lparr>loginAttempts := Some 4, lockUntil := Some 1000\<rparr>"

text \<open>Alice after five failures, with the lock they set (it ends at 100) still on the
  document.\<close>

definition troubled_alice :: user where
  "troubled_alice = alice\<lparr>loginAttempts := Some 5, lockUntil := Some 100\<rparr>"

definition login_request :: "string \<Rightarrow> string \<Rightarrow> request" where
  "login_request e pw =
     \<lparr>validation_errors = [], body_fullName = [], body_email = e, body_password = pw,
      body_extra = [], cookie_refreshToken = None, req_user = None\<rparr>"

definition cookie_request :: "string \<Rightarrow> uid option \<Rightarrow> request" where
  "cookie_request tok who =
     \<lparr>validation_errors = [], body_fullName = [], body_email = [], body_password = [],
      body_extra = [], cookie_refreshToken = Some tok, req_user = who\<rparr>"

text \<open>A registration that also sends \<open>role\<close> and \<open>isVerified\<close>.\<close>

definition greedy_registration :: request where
  "greedy_registration =
     \<lparr>validation_errors = [], body_fullName = ''Bob B'', body_email = ''Bob@Example.com'',
      body_password = ''hunter2hunter2'',
      body_extra = [(''role'', ''admin''), (''isVerified'', ''true''), (''isActive'', ''false'')],
      cookie_refreshToken = None, req_user = None\<rparr>"

text \<open>Five wrong guesses at Alice's password, one a second.\<close>

definition five_guesses :: "(time \<times> request) list" where
  "five_guesses =
     [(1000, login_request ''Alice@Example.com'' ''guess1''),
      (2000, login_request ''alice@example.com'' ''guess2''),
      (3000, login_request ''alice@example.com'' ''guess3''),
      (4000, login_request ''alice@example.com'' ''guess4''),
      (5000, login_request ''alice@example.com'' ''guess5'')]"

text \<open>The refresh token the example signer gives Alice during second 5 under
  \<open>demo_config\<close>, and the collection in which it is her only token.\<close>

definition token5 :: string where
  "token5 = ''sr|Ru|sssss|ddddddd''"

definition alice_session :: store where
  "alice_session = [alice\<lparr>refreshTokens := [new_entry demo_libs 5000 token5]\<rparr>]"

section \<open>Facts about the collection\<close>

lemma map_uid_updateOne:
  "(\<And>u. uid (f u) = uid u) \<Longrightarrow> map uid (updateOne i f s) = map uid s"
  by (induction s) auto

lemma findById_updateOne_same:
  "(\<And>u. uid (f u) = uid u) \<Longrightarrow> findById (updateOne i f s) i = map_option f (findById s i)"
  by (induction s) (auto simp: findById_def)

lemma findById_updateOne_hit:
  "findById s i = Some d \<Longrightarrow> (\<And>u. uid (f u) = uid u) \<Longrightarrow>
   findById (updateOne i f s) i = Some (f d)"
  by (simp add: findById_updateOne_same)

lemma findById_uid: "findById s i = Some d \<Longrightarrow> uid d = i"
  by (induction s) (auto simp: findById_def split: if_splits)

lemma findOne_email_mem:
  "findOne_email s e = Some u \<Longrightarrow> u \<in> set s \<and> email u = cast_email e"
  by (induction s) (auto simp: findOne_email_def split: if_splits)

lemma findById_of_distinct:
  "distinct (map uid s) \<Longrightarrow> u \<in> set s \<Longrightarrow> findById s (uid u) = Some u"
  by (induction s) (auto simp: findById_def)

lemma findByEmail_loaded:
  "distinct (map uid s) \<Longrightarrow> findByEmail s e = Some d \<Longrightarrow> findById s (uid d) = Some d"
  using findOne_email_mem findById_of_distinct unfolding findByEmail_def by blast

text \<open>With unique identifiers, the document a query by email finds is the one an update
  through its \<open>_id\<close> changes.\<close>

lemma findOne_email_updateOne:
  "distinct (map uid s) \<Longrightarrow> (\<And>v. email (f v) = email v) \<Longrightarrow> findOne_email s e = Some u
   \<Longrightarrow> findOne_email (updateOne (uid u) f s) e = Some (f u)"
proof (induction s)
  case Nil
  then show ?case by (simp add: findOne_email_def)
next
  case (Cons x xs)
  show ?case
  proof (cases "email x = cast_email e")
    case True
    with Cons.prems show ?thesis by (simp add: findOne_email_def)
  next
    case False
    with Cons.prems have tail: "findOne_email xs e = Some u"
      by (simp add: findOne_email_def)
    then have "u \<in> set xs" using findOne_email_mem by blast
    with Cons.prems(1) have "uid x \<noteq> uid u" by auto
    moreover have "findOne_email (updateOne (uid u) f xs) e = Some (f u)"
      using Cons.IH Cons.prems tail by simp
    ultimately show ?thesis using False by (simp add: findOne_email_def)
  qed
qed

lemma updateOne_append_new:
  "findById s i = None \<Longrightarrow> uid u = i \<Longrightarrow> updateOne i f (s @ [u]) = s @ [f u]"
  by (induction s) (auto simp: findById_def split: if_splits)

section \<open>The lockout policy\<close>

lemma distinct_incLoginAttempts:
  "distinct (map uid (incLoginAttempts t s d)) = distinct (map uid s)"
  by (simp add: incLoginAttempts_def map_uid_updateOne)

lemma inc_expired:
  assumes "distinct (map uid s)" "findOne_email s e = Some d" "lockUntil d = Some l" "l < t"
  shows "findOne_email (incLoginAttempts t s d) e
         = Some (d\<lparr>lockUntil := None, loginAttempts := Some 1\<rparr>)"
proof -
  have "incLoginAttempts t s d
        = updateOne (uid d) (\<lambda>u. u\<lparr>lockUntil := None, loginAttempts := Some 1\<rparr>) s"
    using assms(3,4) by (simp add: incLoginAttempts_def expired_lock_def)
  then show ?thesis using assms(1,2) by (simp add: findOne_email_updateOne)
qed

lemma inc_below_threshold:
  assumes "distinct (map uid s)" "findOne_email s e = Some d" "lockUntil d = None"
    "getLoginAttempts d + 1 < 5"
  shows "findOne_email (incLoginAttempts t s d) e
         = Some (d\<lparr>loginAttempts := Some (getLoginAttempts d + 1)\<rparr>)"
proof -
  have "incLoginAttempts t s d
        = updateOne (uid d) (\<lambda>u. u\<lparr>loginAttempts := Some (getLoginAttempts u + 1)\<rparr>) s"
    using assms(3,4) by (simp add: incLoginAttempts_def expired_lock_def)
  then show ?thesis using assms(1,2) by (simp add: findOne_email_updateOne)
qed

lemma inc_at_threshold:
  assumes "distinct (map uid s)" "findOne_email s e = Some d" "lockUntil d = None"
    "getLoginAttempts d + 1 \<ge> 5"
  shows "findOne_email (incLoginAttempts t s d) e
         = Some (d\<lparr>loginAttempts := Some (getLoginAttempts d + 1),
                    lockUntil := Some (t + lock_duration)\<rparr>)"
proof -
  have "incLoginAttempts t s d
        = updateOne (uid d)
            (\<lambda>u. u\<lparr>loginAttempts := Some (getLoginAttempts u + 1),
                    lockUntil := Some (t + lock_duration)\<rparr>) s"
    using assms(3,4) by (simp add: incLoginAttempts_def expired_lock_def)
  then show ?thesis using assms(1,2) by (simp add: findOne_email_updateOne)
qed

lemma login_locked:
  "validation_errors r = [] \<Longrightarrow> findByEmail s (body_email r) = Some d \<Longrightarrow> isLocked t d
   \<Longrightarrow> login L cfg t s r = (s, locked_response)"
  by (simp add: login_def locked_response_def)

lemma login_wrong_password:
  "validation_errors r = [] \<Longrightarrow> findByEmail s (body_email r) = Some d \<Longrightarrow> \<not> isLocked t d
   \<Longrightarrow> isActive d \<Longrightarrow> \<not> comparePassword L d (body_password r)
   \<Longrightarrow> login L cfg t s r = (incLoginAttempts t s d, json_fail 401 ''Invalid credentials'')"
  by (simp add: login_def)

lemma status_login_success:
  "status (snd (login_success L cfg now s d)) = 200 \<or> status (snd (login_success L cfg now s d)) = 500"
  by (simp add: login_success_def Let_def json_fail_def json_ok_def
      split: option.splits prod.splits)

text \<open>For an account that exists, the answer "Invalid credentials" is given on one path
  only: the account was neither locked nor inactive, the password was wrong, and the
  failure was counted.\<close>

lemma counted_failure:
  assumes found: "findOne_email s e = Some d"
    and same: "toLowerCase (body_email r) = e"
    and resp: "snd (login L cfg t s r) = json_fail 401 ''Invalid credentials''"
  shows "login L cfg t s r = (incLoginAttempts t s d, json_fail 401 ''Invalid credentials'')"
proof -
  have who: "findByEmail s (body_email r) = Some d"
    using found same by (simp add: findByEmail_def)
  have st: "status (snd (login L cfg t s r)) = 401" using resp by (simp add: json_fail_def)
  have v: "validation_errors r = []"
    using st by (auto simp: login_def validation_failed_def json_fail_def split: if_splits)
  have l: "\<not> isLocked t d"
    using st v who by (auto simp: login_def json_fail_def split: if_splits)
  have a: "isActive d"
    using st v who l by (auto simp: login_def json_fail_def split: if_splits)
  have "\<not> comparePassword L d (body_password r)"
  proof
    assume "comparePassword L d (body_password r)"
    then have "login L cfg t s r = login_success L cfg t s d"
      using v who l a by (simp add: login_def)
    with st status_login_success [of L cfg t s d] show False by simp
  qed
  with v who l a show ?thesis by (rule login_wrong_password)
qed

lemma replicate_345:
  "replicate 4 x = [x, x, x, x]" "replicate 5 x = [x, x, x, x, x]"
  by (simp_all add: numeral_eq_Suc)

text \<open>One more counted failure on an account without a lock: below the threshold the
  count grows and the account stays unlocked; at the threshold it is locked for two
  hours from the attempt.\<close>

lemma failure_below_threshold:
  assumes ids: "distinct (map uid s)"
    and found: "findOne_email s e = Some d"
    and d: "getLoginAttempts d = n" "lockUntil d = None" "n + 1 < 5"
    and same: "toLowerCase (body_email r) = e"
    and resp: "snd (login L cfg t s r) = json_fail 401 ''Invalid credentials''"
  shows "\<exists>d'. distinct (map uid (fst (login L cfg t s r)))
    \<and> findOne_email (fst (login L cfg t s r)) e = Some d'
    \<and> getLoginAttempts d' = n + 1 \<and> lockUntil d' = None"
proof -
  have run: "fst (login L cfg t s r) = incLoginAttempts t s d"
    using counted_failure [OF found same resp] by simp
  have "findOne_email (incLoginAttempts t s d) e
        = Some (d\<lparr>loginAttempts := Some (getLoginAttempts d + 1)\<rparr>)"
    using d by (intro inc_below_threshold [OF ids found]) simp_all
  then show ?thesis
    unfolding run using ids d by (simp add: distinct_incLoginAttempts getLoginAttempts_def)
qed

lemma failure_at_threshold:
  assumes ids: "distinct (map uid s)"
    and found: "findOne_email s e = Some d"
    and d: "getLoginAttempts d = n" "lockUntil d = None" "n + 1 \<ge> 5"
    and same: "toLowerCase (body_email r) = e"
    and resp: "snd (login L cfg t s r) = json_fail 401 ''Invalid credentials''"
  shows "\<exists>d'. findOne_email (fst (login L cfg t s r)) e = Some d'
    \<and> getLoginAttempts d' = n + 1 \<and> lockUntil d' = Some (t + lock_duration)"
proof -
  have run: "fst (login L cfg t s r) = incLoginAttempts t s d"
    using counted_failure [OF found same resp] by simp
  have "findOne_email (incLoginAttempts t s d) e
        = Some (d\<lparr>loginAttempts := Some (getLoginAttempts d + 1),
                   lockUntil := Some (t + lock_duration)\<rparr>)"
    using d by (intro inc_at_threshold [OF ids found]) simp_all
  then show ?thesis unfolding run using d by (simp add: getLoginAttempts_def)
qed

text \<open>The first counted failure on an account whose counter is fresh or whose lock has
  run out leaves the count at 1 and no lock.\<close>

lemma first_failure:
  assumes ids: "distinct (map uid s)"
    and found: "findOne_email s e = Some d"
    and start: "(getLoginAttempts d = 0 \<and> lockUntil d = None) \<or> (\<exists>l. lockUntil d = Some l \<and> l < t)"
    and same: "toLowerCase (body_email r) = e"
    and resp: "snd (login L cfg t s r) = json_fail 401 ''Invalid credentials''"
  shows "\<exists>d'. distinct (map uid (fst (login L cfg t s r)))
    \<and> findOne_email (fst (login L cfg t s r)) e = Some d'
    \<and> getLoginAttempts d' = 1 \<and> lockUntil d' = None"
  using start
proof
  assume "getLoginAttempts d = 0 \<and> lockUntil d = None"
  then show ?thesis
    using failure_below_threshold [OF ids found _ _ _ same resp, of 0] by simp
next
  assume "\<exists>l. lockUntil d = Some l \<and> l < t"
  then obtain l where l: "lockUntil d = Some l" "l < t" by blast
  have run: "fst (login L cfg t s r) = incLoginAttempts t s d"
    using counted_failure [OF found same resp] by simp
  have "findOne_email (incLoginAttempts t s d) e
        = Some (d\<lparr>lockUntil := None, loginAttempts := Some 1\<rparr>)"
    by (rule inc_expired [OF ids found l])
  then show ?thesis
    unfolding run using ids by (simp add: distinct_incLoginAttempts getLoginAttempts_def)
qed

text \<open>
  C1. Take an account that exists and whose failure counter is fresh (no counted failure
  and no lock, as after registration or a successful login) or whose previous lock has
  run out, and five login attempts in a row for it that each fail as InvalidCredentials
  (401 "Invalid credentials"). The account is not locked after the fourth and is
  locked after the fifth, with \<open>lockUntil\<close> the time of the fifth attempt plus two
  hours. From then on, and for any account whose \<open>lockUntil\<close> lies in the future, a
  login attempt answers 423 (AccountLocked, not InvalidCredentials) and changes
  nothing, whatever the password.
\<close>

theorem five_failures_lock:
  assumes ids: "distinct (map uid s)"
    and found: "findOne_email s e = Some d"
    and start: "(getLoginAttempts d = 0 \<and> lockUntil d = None) \<or> (\<exists>l. lockUntil d = Some l \<and> l < t1)"
    and same: "list_all (\<lambda>r. toLowerCase (body_email r) = e) [r1, r2, r3, r4, r5]"
    and failed: "snd (login_seq L cfg s [(t1, r1), (t2, r2), (t3, r3), (t4, r4), (t5, r5)])
                 = replicate 5 (json_fail 401 ''Invalid credentials'')"
  shows "\<exists>s4 d4 s5 d5.
      s4 = fst (login_seq L cfg s [(t1, r1), (t2, r2), (t3, r3), (t4, r4)])
    \<and> s5 = fst (login_seq L cfg s [(t1, r1), (t2, r2), (t3, r3), (t4, r4), (t5, r5)])
    \<and> failure_of (json_fail 401 ''Invalid credentials'') = Some InvalidCredentials
    \<and> findOne_email s4 e = Some d4 \<and> getLoginAttempts d4 = 4 \<and> lockUntil d4 = None
    \<and> findOne_email s5 e = Some d5 \<and> getLoginAttempts d5 = 5
    \<and> lockUntil d5 = Some (t5 + 2 * 60 * 60 * 1000)
    \<and> (\<forall>t r. validation_errors r = [] \<and> toLowerCase (body_email r) = e
            \<and> t < t5 + 2 * 60 * 60 * 1000 \<longrightarrow>
          login L cfg t s5 r = (s5, locked_response))
    \<and> failure_of locked_response = Some AccountLocked
    \<and> (\<forall>s' t r d' l. validation_errors r = [] \<and> findByEmail s' (body_email r) = Some d'
            \<and> lockUntil d' = Some l \<and> t < l \<longrightarrow>
          login L cfg t s' r = (s', locked_response))"
proof -
  let ?fail = "json_fail 401 ''Invalid credentials''"
  from same have e: "toLowerCase (body_email r1) = e" "toLowerCase (body_email r2) = e"
    "toLowerCase (body_email r3) = e" "toLowerCase (body_email r4) = e"
    "toLowerCase (body_email r5) = e" by simp_all
  define s1 where "s1 = fst (login L cfg t1 s r1)"
  define s2 where "s2 = fst (login L cfg t2 s1 r2)"
  define s3 where "s3 = fst (login L cfg t3 s2 r3)"
  define s4 where "s4 = fst (login L cfg t4 s3 r4)"
  define s5 where "s5 = fst (login L cfg t5 s4 r5)"
  note ss = s1_def s2_def s3_def s4_def s5_def
  have run5: "login_seq L cfg s [(t1, r1), (t2, r2), (t3, r3), (t4, r4), (t5, r5)]
      = (s5, [snd (login L cfg t1 s r1), snd (login L cfg t2 s1 r2), snd (login L cfg t3 s2 r3),
              snd (login L cfg t4 s3 r4), snd (login L cfg t5 s4 r5)])"
    by (simp add: ss split_beta)
  have run4: "fst (login_seq L cfg s [(t1, r1), (t2, r2), (t3, r3), (t4, r4)]) = s4"
    by (simp add: ss split_beta)
  from failed have a: "snd (login L cfg t1 s r1) = ?fail" "snd (login L cfg t2 s1 r2) = ?fail"
    "snd (login L cfg t3 s2 r3) = ?fail" "snd (login L cfg t4 s3 r4) = ?fail"
    "snd (login L cfg t5 s4 r5) = ?fail"
    unfolding run5 snd_conv replicate_345 by simp_all
  from first_failure [OF ids found start e(1) a(1)] obtain d1 where
    d1: "distinct (map uid s1)" "findOne_email s1 e = Some d1"
      "getLoginAttempts d1 = 1" "lockUntil d1 = None"
    unfolding s1_def by blast
  from failure_below_threshold [OF d1 _ e(2) a(2)] obtain d2 where
    d2: "distinct (map uid s2)" "findOne_email s2 e = Some d2"
      "getLoginAttempts d2 = 2" "lockUntil d2 = None"
    unfolding s2_def by auto
  from failure_below_threshold [OF d2 _ e(3) a(3)] obtain d3 where
    d3: "distinct (map uid s3)" "findOne_email s3 e = Some d3"
      "getLoginAttempts d3 = 3" "lockUntil d3 = None"
    unfolding s3_def by auto
  from failure_below_threshold [OF d3 _ e(4) a(4)] obtain d4 where
    d4: "distinct (map uid s4)" "findOne_email s4 e = Some d4"
      "getLoginAttempts d4 = 4" "lockUntil d4 = None"
    unfolding s4_def by auto
  from failure_at_threshold [OF d4 _ e(5) a(5)] obtain d5 where
    d5: "findOne_email s5 e = Some d5" "getLoginAttempts d5 = 5"
      "lockUntil d5 = Some (t5 + lock_duration)"
    unfolding s5_def by auto
  have general: "login L cfg t s' r = (s', locked_response)"
    if "validation_errors r = []" "findByEmail s' (body_email r) = Some d'"
      "lockUntil d' = Some l" "t < l" for s' t r d' l
    using that login_locked [of r s' d' t L cfg] by (simp add: isLocked_def)
  have sixth: "login L cfg t s5 r = (s5, locked_response)"
    if "validation_errors r = []" "toLowerCase (body_email r) = e" "t < t5 + 2 * 60 * 60 * 1000"
    for t r
  proof (rule general)
    show "validation_errors r = []" by (rule that)
    show "findByEmail s5 (body_email r) = Some d5" using that(2) d5(1) by (simp add: findByEmail_def)
    show "lockUntil d5 = Some (t5 + lock_duration)" by (rule d5)
    show "t < t5 + lock_duration" using that(3) by (simp add: lock_duration_def)
  qed
  have names: "failure_of locked_response = Some AccountLocked"
    "failure_of ?fail = Some InvalidCredentials"
    by (simp_all add: failure_of_def locked_response_def json_fail_def)
  have lock_at: "lockUntil d5 = Some (t5 + 2 * 60 * 60 * 1000)"
    using d5(3) by (simp add: lock_duration_def)
  have s5_eq: "s5 = fst (login_seq L cfg s [(t1, r1), (t2, r2), (t3, r3), (t4, r4), (t5, r5)])"
    by (simp only: run5 fst_conv)
  show ?thesis
    apply (rule exI [of _ s4], rule exI [of _ d4], rule exI [of _ s5], rule exI [of _ d5])
    using run4 [symmetric] s5_eq names d4(2-4) d5(1,2) lock_at sixth general by blast
qed

text \<open>
  Witness for C1: five wrong guesses at Alice's password, one a second from 1000 on, are
  each answered "Invalid credentials" and lock her account until 7205000; the correct
  password at 6000 is then answered with the locked response.
\<close>

theorem five_failures_lock_witness:
  "distinct (map uid [alice])
   \<and> findOne_email [alice] ''alice@example.com'' = Some alice
   \<and> getLoginAttempts alice = 0 \<and> lockUntil alice = None
   \<and> snd (login_seq demo_libs demo_config [alice] five_guesses)
       = replicate 5 (json_fail 401 ''Invalid credentials'')
   \<and> comparePassword demo_libs alice ''Secur3!pass''
   \<and> (\<exists>d5. findOne_email (fst (login_seq demo_libs demo_config [alice] five_guesses))
               ''alice@example.com'' = Some d5
         \<and> getLoginAttempts d5 = 5
         \<and> lockUntil d5 = Some 7205000)
   \<and> login demo_libs demo_config 6000 (fst (login_seq demo_libs demo_config [alice] five_guesses))
        (login_request ''alice@example.com'' ''Secur3!pass'')
       = (fst (login_seq demo_libs demo_config [alice] five_guesses), locked_response)"
proof -
  let ?e = "''alice@example.com''"
  let ?s5 = "fst (login_seq demo_libs demo_config [alice] five_guesses)"
  have h1: "distinct (map uid [alice])" by simp
  have h2: "findOne_email [alice] ?e = Some alice" by code_simp
  have h3: "getLoginAttempts alice = 0" "lockUntil alice = None"
    by (simp_all add: alice_def getLoginAttempts_def)
  then have start: "(getLoginAttempts alice = 0 \<and> lockUntil alice = None)
                    \<or> (\<exists>l. lockUntil alice = Some l \<and> l < 1000)" by simp
  have h4: "list_all (\<lambda>r. toLowerCase (body_email r) = ?e)
              [login_request ''Alice@Example.com'' ''guess1'',
               login_request ''alice@example.com'' ''guess2'',
               login_request ''alice@example.com'' ''guess3'',
               login_request ''alice@example.com'' ''guess4'',
               login_request ''alice@example.com'' ''guess5'']" by code_simp
  have h5: "snd (login_seq demo_libs demo_config [alice] five_guesses)
            = replicate 5 (json_fail 401 ''Invalid credentials'')" by code_simp
  have h6: "comparePassword demo_libs alice ''Secur3!pass''" by code_simp
  have ok: "validation_errors (login_request ?e ''Secur3!pass'') = []"
    "toLowerCase (body_email (login_request ?e ''Secur3!pass'')) = ?e" by code_simp+
  from five_failures_lock [OF h1 h2 start h4 h5 [unfolded five_guesses_def]]
  obtain d5 where
    found: "findOne_email ?s5 ?e = Some d5" "getLoginAttempts d5 = 5"
    and lock: "lockUntil d5 = Some (5000 + 2 * 60 * 60 * 1000)"
    and sixth: "\<And>t r. validation_errors r = [] \<and> toLowerCase (body_email r) = ?e
            \<and> t < 5000 + 2 * 60 * 60 * 1000 \<Longrightarrow>
          login demo_libs demo_config t ?s5 r = (?s5, locked_response)"
    unfolding five_guesses_def by blast
  have "login demo_libs demo_config 6000 ?s5 (login_request ?e ''Secur3!pass'') = (?s5, locked_response)"
    by (rule sixth) (simp add: ok)
  with found lock h1 h2 h3 h5 h6 show ?thesis by simp
qed

text \<open>
  C2, as the specification states it, fails where \<open>lockUntil\<close> is set and equal to the
  time of the attempt: the account is not locked then (\<open>isLocked\<close> asks for
  \<open>lockUntil > now\<close>), the lock is not in the past (\<open>incLoginAttempts\<close> asks for
  \<open>lockUntil < now\<close>), the incremented count is 5, and yet \<open>lockUntil\<close> stays as it
  was, because a new lock is set only on a document that has no \<open>lockUntil\<close>. The
  same happens to Alice when, locked after five failures until 100, she fails again at
  100: the count goes to 6 and she is not locked.
\<close>

theorem incLoginAttempts_boundary_counterexample:
  "findById [boundary_user] (uid boundary_user) = Some boundary_user
   \<and> \<not> isLocked 1000 boundary_user
   \<and> \<not> (\<exists>l. lockUntil boundary_user = Some l \<and> l < 1000)
   \<and> getLoginAttempts boundary_user + 1 = 5
   \<and> map loginAttempts (incLoginAttempts 1000 [boundary_user] boundary_user) = [Some 5]
   \<and> map lockUntil (incLoginAttempts 1000 [boundary_user] boundary_user) = [Some 1000]
   \<and> map lockUntil (incLoginAttempts 1000 [boundary_user] boundary_user)
       \<noteq> [Some (1000 + 2 * 60 * 60 * 1000)]
   \<and> \<not> isLocked 100 troubled_alice
   \<and> \<not> (\<exists>l. lockUntil troubled_alice = Some l \<and> l < 100)
   \<and> map loginAttempts (incLoginAttempts 100 [troubled_alice] troubled_alice) = [Some 6]
   \<and> map lockUntil (incLoginAttempts 100 [troubled_alice] troubled_alice) = [Some 100]
   \<and> map (isLocked 100) (incLoginAttempts 100 [troubled_alice] troubled_alice) = [False]"
  by (simp add: boundary_user_def troubled_alice_def alice_def findById_def isLocked_def
      getLoginAttempts_def incLoginAttempts_def expired_lock_def)

text \<open>
  C2, amended. A failed attempt on an account that is not locked, made on the document
  as stored: if \<open>lockUntil\<close> is set and in the past, the stored \<open>loginAttempts\<close> becomes
  1 and \<open>lockUntil\<close> is removed; otherwise \<open>loginAttempts\<close> grows by exactly 1, and if
  the incremented count reaches 5 and the document has no \<open>lockUntil\<close>, \<open>lockUntil\<close>
  becomes the time of the attempt plus two hours.
\<close>

theorem incLoginAttempts_stored:
  assumes loaded: "findById s (uid d) = Some d"
    and unlocked: "\<not> isLocked now d"
  shows "\<exists>d'. findById (incLoginAttempts now s d) (uid d) = Some d'
    \<and> ((\<exists>l. lockUntil d = Some l \<and> l < now) \<longrightarrow>
          loginAttempts d' = Some 1 \<and> lockUntil d' = None)
    \<and> (\<not> (\<exists>l. lockUntil d = Some l \<and> l < now) \<longrightarrow>
          loginAttempts d' = Some (getLoginAttempts d + 1))
    \<and> (\<not> (\<exists>l. lockUntil d = Some l \<and> l < now) \<and> getLoginAttempts d + 1 \<ge> 5
          \<and> lockUntil d = None \<longrightarrow>
          lockUntil d' = Some (now + 2 * 60 * 60 * 1000))"
proof (cases "expired_lock now d")
  case True
  then have ex: "\<exists>l. lockUntil d = Some l \<and> l < now"
    by (auto simp: expired_lock_def split: option.splits)
  have "findById (incLoginAttempts now s d) (uid d)
        = Some (d\<lparr>lockUntil := None, loginAttempts := Some 1\<rparr>)"
    using True loaded by (simp add: incLoginAttempts_def findById_updateOne_hit)
  with ex show ?thesis by simp
next
  case False
  then have nex: "\<not> (\<exists>l. lockUntil d = Some l \<and> l < now)"
    by (auto simp: expired_lock_def split: option.splits)
  show ?thesis
  proof (cases "getLoginAttempts d + 1 \<ge> 5 \<and> lockUntil d = None")
    case True
    have "findById (incLoginAttempts now s d) (uid d)
          = Some (d\<lparr>loginAttempts := Some (getLoginAttempts d + 1),
                     lockUntil := Some (now + lock_duration)\<rparr>)"
      using False True loaded by (simp add: incLoginAttempts_def findById_updateOne_hit)
    with nex show ?thesis by (simp add: lock_duration_def)
  next
    case notlock: False
    have "findById (incLoginAttempts now s d) (uid d)
          = Some (d\<lparr>loginAttempts := Some (getLoginAttempts d + 1)\<rparr>)"
    proof -
      have "incLoginAttempts now s d
            = updateOne (uid d) (\<lambda>u. u\<lparr>loginAttempts := Some (getLoginAttempts u + 1)\<rparr>) s"
        unfolding incLoginAttempts_def using False notlock by (simp only: if_False)
      then show ?thesis using loaded by (simp add: findById_updateOne_hit)
    qed
    with nex notlock show ?thesis by auto
  qed
qed

text \<open>
  Witness for C2, amended: Alice's fifth failure, at 5000, locks her until 7205000; a
  failure at 5000 after her lock ran out at 100 starts the count again at 1.
\<close>

theorem incLoginAttempts_stored_witness:
  "(\<exists>d'. findById (incLoginAttempts 5000 [alice\<lparr>loginAttempts := Some 4\<rparr>]
                     (alice\<lparr>loginAttempts := Some 4\<rparr>)) 1 = Some d'
         \<and> loginAttempts d' = Some 5 \<and> lockUntil d' = Some 7205000)
   \<and> (\<exists>d'. findById (incLoginAttempts 5000 [troubled_alice] troubled_alice) 1 = Some d'
         \<and> loginAttempts d' = Some 1 \<and> lockUntil d' = None)"
proof -
  let ?d = "alice\<lparr>loginAttempts := Some 4\<rparr>"
  have a: "findById [?d] (uid ?d) = Some ?d" by (simp add: findById_def)
  have b: "\<not> isLocked 5000 ?d" by (simp add: isLocked_def alice_def)
  have c: "uid ?d = 1" "lockUntil ?d = None" "getLoginAttempts ?d = 4"
    by (simp_all add: alice_def getLoginAttempts_def)
  have a': "findById [troubled_alice] (uid troubled_alice) = Some troubled_alice"
    by (simp add: findById_def)
  have b': "\<not> isLocked 5000 troubled_alice" by (simp add: isLocked_def troubled_alice_def)
  have c': "uid troubled_alice = 1" "lockUntil troubled_alice = Some 100"
    by (simp_all add: troubled_alice_def alice_def)
  from incLoginAttempts_stored [OF a b] have first:
    "\<exists>d'. findById (incLoginAttempts 5000 [?d] ?d) 1 = Some d'
         \<and> loginAttempts d' = Some 5 \<and> lockUntil d' = Some 7205000"
    unfolding c by auto
  from incLoginAttempts_stored [OF a' b'] have second:
    "\<exists>d'. findById (incLoginAttempts 5000 [troubled_alice] troubled_alice) 1 = Some d'
         \<and> loginAttempts d' = Some 1 \<and> lockUntil d' = None"
    unfolding c' by auto
  from first second show ?thesis by (rule conjI)
qed

section \<open>Successful login\<close>

lemma login_success_stored:
  assumes "findById s (uid d) = Some d0"
  shows "\<exists>d'. findById (fst (login_success L cfg now s d)) (uid d) = Some d'
    \<and> loginAttempts d' = None \<and> lockUntil d' = None \<and> lastLogin d' = Some now"
  using assms
  by (simp add: login_success_def resetLoginAttempts_def updateLastLogin_def
      cleanupExpiredTokens_def addRefreshToken_def save_refreshTokens_def Let_def
      findById_updateOne_same split: option.splits prod.splits)

lemma login_200:
  assumes "status (snd (login L cfg now s req)) = 200"
  shows "\<exists>d. findByEmail s (body_email req) = Some d \<and> \<not> isLocked now d
    \<and> login L cfg now s req = login_success L cfg now s d"
  using assms
  by (auto simp: login_def json_fail_def validation_failed_def split: if_splits option.splits)

text \<open>
  C3. After a successful login (the response has status 200) the stored document of the
  user who logged in reads \<open>loginAttempts = 0\<close> and has no \<open>lockUntil\<close>, whatever the
  two were before, and its \<open>lastLogin\<close> is the time of the login.
\<close>

theorem successful_login_resets_lockout:
  assumes ids: "distinct (map uid s)"
    and ok: "status (snd (login L cfg now s req)) = 200"
  shows "\<exists>d d'. findByEmail s (body_email req) = Some d
    \<and> findById (fst (login L cfg now s req)) (uid d) = Some d'
    \<and> getLoginAttempts d' = 0 \<and> lockUntil d' = None
    \<and> \<not> isLocked now d' \<and> lastLogin d' = Some now"
proof -
  from login_200 [OF ok] obtain d where d: "findByEmail s (body_email req) = Some d"
    and eq: "login L cfg now s req = login_success L cfg now s d" by blast
  from findByEmail_loaded [OF ids d] have "findById s (uid d) = Some d" .
  from login_success_stored [OF this, of L cfg now] obtain d' where
    "findById (fst (login_success L cfg now s d)) (uid d) = Some d'"
    "loginAttempts d' = None" "lockUntil d' = None" "lastLogin d' = Some now" by blast
  with d eq show ?thesis by (auto simp: getLoginAttempts_def isLocked_def)
qed

text \<open>
  Witness for C3: Alice, with five counted failures and an expired lock on her document,
  logs in with the right password at 5000; the stored document then has neither field
  and \<open>lastLogin = 5000\<close>.
\<close>

theorem successful_login_resets_lockout_witness:
  "distinct (map uid [troubled_alice])
   \<and> loginAttempts troubled_alice = Some 5 \<and> lockUntil troubled_alice = Some 100
   \<and> status (snd (login demo_libs demo_config 5000 [troubled_alice]
                     (login_request ''alice@example.com'' ''Secur3!pass''))) = 200
   \<and> (\<exists>d'. findById (fst (login demo_libs demo_config 5000 [troubled_alice]
                             (login_request ''alice@example.com'' ''Secur3!pass''))) 1 = Some d'
         \<and> getLoginAttempts d' = 0 \<and> lockUntil d' = None \<and> lastLogin d' = Some 5000)"
proof -
  let ?req = "login_request ''alice@example.com'' ''Secur3!pass''"
  have h1: "distinct (map uid [troubled_alice])" by simp
  have h2: "status (snd (login demo_libs demo_config 5000 [troubled_alice] ?req)) = 200"
    by code_simp
  have before: "loginAttempts troubled_alice = Some 5" "lockUntil troubled_alice = Some 100"
    by (simp_all add: troubled_alice_def)
  have who: "findByEmail [troubled_alice] (body_email ?req) = Some troubled_alice"
    by code_simp
  have i: "uid troubled_alice = 1" by (simp add: troubled_alice_def alice_def)
  from successful_login_resets_lockout [OF h1 h2] who i
  have "\<exists>d'. findById (fst (login demo_libs demo_config 5000 [troubled_alice] ?req)) 1 = Some d'
         \<and> getLoginAttempts d' = 0 \<and> lockUntil d' = None \<and> lastLogin d' = Some 5000"
    by auto
  with h1 h2 before show ?thesis by simp
qed

section \<open>The registry's bound\<close>

lemma pushRefreshToken_eq: "pushRefreshToken L t tok ts = slice_last 5 (ts @ [new_entry L t tok])"
  by (simp add: pushRefreshToken_def slice_last_def Let_def)







section \<open>The stored expiry of a refresh token\<close>

lemma slice_last_snoc:
  "0 < n \<Longrightarrow> slice_last n (xs @ [x]) \<noteq> [] \<and> last (slice_last n (xs @ [x])) = x"
  by (simp add: slice_last_def)

lemma set_slice_last: "set (slice_last n xs) \<subseteq> set xs"
  by (simp add: slice_last_def set_drop_subset)

lemma pushRefreshToken_last:
  "pushRefreshToken L t tok ts \<noteq> [] \<and> last (pushRefreshToken L t tok ts) = new_entry L t tok"
  unfolding pushRefreshToken_eq using slice_last_snoc [of 5] by simp

lemma pushRefreshToken_tokens:
  "token ` set (pushRefreshToken L t tok ts) \<subseteq> insert tok (token ` set ts)"
proof -
  have "set (pushRefreshToken L t tok ts) \<subseteq> set (ts @ [new_entry L t tok])"
    unfolding pushRefreshToken_eq by (rule set_slice_last)
  then show ?thesis by (auto simp: new_entry_def)
qed

lemma addRefreshToken_stored:
  assumes "findById s (uid d) = Some d0"
  shows "findById (fst (addRefreshToken L now tok s d)) (uid d)
         = Some (d0\<lparr>refreshTokens := pushRefreshToken L now tok (refreshTokens d)\<rparr>)"
  using assms
  by (simp add: addRefreshToken_def save_refreshTokens_def Let_def findById_updateOne_same)

text \<open>
  C5, as the specification states it, fails for a configured refresh-token life time
  other than seven days. In a process that runs in UTC, with
  \<open>JWT_REFRESH_EXPIRES_IN = "1d"\<close>, the token signed for Alice at time 0 expires after
  86400 seconds, and the entry \<open>addRefreshToken\<close> stores for it expires at 604800000 ms
  (seven days), not at 86400000 ms.
\<close>

theorem stored_expiry_ignores_config_counterexample:
  "refresh_ttl_ms demo_libs one_day_config = Some 86400000
   \<and> generateRefreshToken demo_libs one_day_config 0 alice = Some ''sr|Ru||d''
   \<and> map_option c_exp (jwt_decode demo_libs ''sr|Ru||d'' (JWT_REFRESH_SECRET one_day_config))
       = Some 86400
   \<and> map (\<lambda>u. map expiresAt (refreshTokens u)) (fst (addRefreshToken demo_libs 0 ''sr|Ru||d'' [alice] alice))
       = [[604800000]]
   \<and> map (\<lambda>u. map (\<lambda>e. Some (expiresAt e)
                          = map_option (\<lambda>ttl. 0 + ttl) (refresh_ttl_ms demo_libs one_day_config))
                 (refreshTokens u))
        (fst (addRefreshToken demo_libs 0 ''sr|Ru||d'' [alice] alice))
       = [[False]]"
  by code_simp

text \<open>
  C5, amended. Take a user document of the collection and a copy of it that holds the
  stored registry. For every (non-empty) refresh token added to that copy, the stored
  entry is the last of the registry, and its \<open>expiresAt\<close> is the time of the addition
  moved forward by seven calendar days in the time zone of the process, whatever
  refresh-token life time is configured: the local time of the addition plus seven days
  of 24 hours, taken back to UTC with the offset in force at that local time. It equals
  the time of the addition plus the configured life time exactly when that life time is
  seven days of 24 hours, corrected by the difference of the two offsets. Where the
  offset is the same at both ends (always in UTC), \<open>expiresAt\<close> is the time of the
  addition plus seven days of 24 hours, and equals the time of the addition plus the
  configured life time exactly when that life time is seven days (the default).
\<close>

theorem stored_expiry_seven_calendar_days:
  assumes stored: "findById s (uid d) = Some d0"
    and in_sync: "refreshTokens d = refreshTokens d0"
    and nonempty: "tok \<noteq> []"
  shows "\<exists>u. findById (fst (addRefreshToken L now tok s d)) (uid d) = Some u
    \<and> refreshTokens u = refreshTokens (snd (addRefreshToken L now tok s d))
    \<and> refreshTokens u \<noteq> []
    \<and> token (last (refreshTokens u)) = tok
    \<and> expiresAt (last (refreshTokens u))
        = now + local_tza L now True + 7 * 24 * 60 * 60 * 1000
          - local_tza L (now + local_tza L now True + 7 * 24 * 60 * 60 * 1000) False
    \<and> (\<forall>L' cfg ttl. refresh_ttl_ms L' cfg = Some ttl \<longrightarrow>
          (expiresAt (last (refreshTokens u)) = now + ttl)
          = (ttl = 7 * 24 * 60 * 60 * 1000 + local_tza L now True
                   - local_tza L (now + local_tza L now True + 7 * 24 * 60 * 60 * 1000) False))
    \<and> (local_tza L (now + local_tza L now True + 7 * 24 * 60 * 60 * 1000) False
         = local_tza L now True \<longrightarrow>
          expiresAt (last (refreshTokens u)) = now + 7 * 24 * 60 * 60 * 1000
          \<and> (\<forall>L' cfg ttl. refresh_ttl_ms L' cfg = Some ttl \<longrightarrow>
                (expiresAt (last (refreshTokens u)) = now + ttl)
                = (ttl = 7 * 24 * 60 * 60 * 1000)))"
proof -
  let ?u = "d0\<lparr>refreshTokens := pushRefreshToken L now tok (refreshTokens d)\<rparr>"
  let ?e = "now + local_tza L now True + 7 * 24 * 60 * 60 * 1000
          - local_tza L (now + local_tza L now True + 7 * 24 * 60 * 60 * 1000) False"
  have a: "findById (fst (addRefreshToken L now tok s d)) (uid d) = Some ?u"
    by (rule addRefreshToken_stored [OF stored])
  have copy: "refreshTokens ?u = refreshTokens (snd (addRefreshToken L now tok s d))"
    by (simp add: addRefreshToken_def Let_def)
  have b: "refreshTokens ?u \<noteq> []" "last (refreshTokens ?u) = new_entry L now tok"
    using pushRefreshToken_last [of L now tok "refreshTokens d"] by simp_all
  have c: "expiresAt (new_entry L now tok) = ?e" "token (new_entry L now tok) = tok"
    by (simp_all add: new_entry_def setDate_plus_7_def seven_days_def Let_def)
  have e: "expiresAt (last (refreshTokens ?u)) = ?e" "token (last (refreshTokens ?u)) = tok"
    unfolding b(2) by (rule c)+
  have general: "\<forall>L' cfg ttl. refresh_ttl_ms L' cfg = Some ttl \<longrightarrow>
          (expiresAt (last (refreshTokens ?u)) = now + ttl)
          = (ttl = 7 * 24 * 60 * 60 * 1000 + local_tza L now True
                   - local_tza L (now + local_tza L now True + 7 * 24 * 60 * 60 * 1000) False)"
    unfolding e(1) by auto
  have same: "local_tza L (now + local_tza L now True + 7 * 24 * 60 * 60 * 1000) False
         = local_tza L now True \<longrightarrow>
          expiresAt (last (refreshTokens ?u)) = now + 7 * 24 * 60 * 60 * 1000
          \<and> (\<forall>L' cfg ttl. refresh_ttl_ms L' cfg = Some ttl \<longrightarrow>
                (expiresAt (last (refreshTokens ?u)) = now + ttl)
                = (ttl = 7 * 24 * 60 * 60 * 1000))"
    unfolding e(1) by auto
  show ?thesis
    apply (rule exI [of _ ?u])
    apply (intro conjI)
          apply (rule a)
         apply (rule copy)
        apply (rule b(1))
       apply (rule e(2))
      apply (rule e(1))
     apply (rule general)
    apply (rule same)
    done
qed

text \<open>
  Witness for C5, amended. In UTC the token added for Alice at 5000 is stored with
  \<open>expiresAt = 604805000\<close>, which is the configured life time later under the default
  \<open>"7d"\<close> and not under \<open>"1d"\<close>. In the zone of \<open>dst_libs\<close>, whose offset grows by an hour
  three days after the epoch, the token added at 0 is stored with
  \<open>expiresAt = 601200000\<close>, an hour short of seven days of 24 hours, so not the
  configured life time later even under the default.
\<close>

theorem stored_expiry_seven_calendar_days_witness:
  "findById [alice] (uid alice) = Some alice
   \<and> token5 \<noteq> []
   \<and> refresh_ttl_ms demo_libs demo_config = Some 604800000
   \<and> refresh_ttl_ms demo_libs one_day_config = Some 86400000
   \<and> (\<exists>u. findById (fst (addRefreshToken demo_libs 5000 token5 [alice] alice)) 1 = Some u
         \<and> token (last (refreshTokens u)) = token5
         \<and> expiresAt (last (refreshTokens u)) = 604805000
         \<and> expiresAt (last (refreshTokens u)) = 5000 + 604800000
         \<and> expiresAt (last (refreshTokens u)) \<noteq> 5000 + 86400000)
   \<and> (\<exists>u. findById (fst (addRefreshToken dst_libs 0 token5 [alice] alice)) 1 = Some u
         \<and> token (last (refreshTokens u)) = token5
         \<and> expiresAt (last (refreshTokens u)) = 601200000
         \<and> expiresAt (last (refreshTokens u)) \<noteq> 0 + 604800000)"
proof -
  have h: "findById [alice] (uid alice) = Some alice" by (simp add: findById_def)
  have i: "uid alice = 1" by (simp add: alice_def)
  have seven: "refresh_ttl_ms demo_libs demo_config = Some 604800000" by code_simp
  have one: "refresh_ttl_ms demo_libs one_day_config = Some 86400000" by code_simp
  have t: "token5 \<noteq> []" by (simp add: token5_def)
  have utc: "local_tza demo_libs x b = 0" for x b by (simp add: demo_libs_def)
  have zone: "local_tza dst_libs 0 True = 3600000"
    "local_tza dst_libs (0 + 3600000 + 7 * 24 * 60 * 60 * 1000) False = 7200000"
    by (simp_all add: dst_libs_def)
  from stored_expiry_seven_calendar_days [OF h refl t, of demo_libs 5000] obtain u where
    u: "findById (fst (addRefreshToken demo_libs 5000 token5 [alice] alice)) (uid alice) = Some u"
      "token (last (refreshTokens u)) = token5"
      "expiresAt (last (refreshTokens u)) = 5000 + 7 * 24 * 60 * 60 * 1000"
    and cfg: "\<And>L' cfg ttl. refresh_ttl_ms L' cfg = Some ttl \<Longrightarrow>
          (expiresAt (last (refreshTokens u)) = 5000 + ttl) = (ttl = 7 * 24 * 60 * 60 * 1000)"
    unfolding utc by auto
  have "expiresAt (last (refreshTokens u)) = 5000 + 604800000"
    "expiresAt (last (refreshTokens u)) \<noteq> 5000 + 86400000"
    using cfg [OF seven] cfg [OF one] by simp_all
  with u have first: "\<exists>u. findById (fst (addRefreshToken demo_libs 5000 token5 [alice] alice)) 1 = Some u
         \<and> token (last (refreshTokens u)) = token5
         \<and> expiresAt (last (refreshTokens u)) = 604805000
         \<and> expiresAt (last (refreshTokens u)) = 5000 + 604800000
         \<and> expiresAt (last (refreshTokens u)) \<noteq> 5000 + 86400000"
    unfolding i by auto
  from stored_expiry_seven_calendar_days [OF h refl t, of dst_libs 0] obtain v where
    v: "findById (fst (addRefreshToken dst_libs 0 token5 [alice] alice)) (uid alice) = Some v"
      "token (last (refreshTokens v)) = token5"
      "expiresAt (last (refreshTokens v)) = 0 + 3600000 + 7 * 24 * 60 * 60 * 1000 - 7200000"
    unfolding zone by auto
  then have second: "\<exists>u. findById (fst (addRefreshToken dst_libs 0 token5 [alice] alice)) 1 = Some u
         \<and> token (last (refreshTokens u)) = token5
         \<and> expiresAt (last (refreshTokens u)) = 601200000
         \<and> expiresAt (last (refreshTokens u)) \<noteq> 0 + 604800000"
    unfolding i by auto
  from h t seven one first second show ?thesis by (intro conjI)
qed

section \<open>Rotation of refresh tokens\<close>

lemma tokenExists_iff: "tokenExists d tok \<longleftrightarrow> tok \<in> token ` set (refreshTokens d)"
  by (auto simp: tokenExists_def list_ex_iff)

lemma find_refresh_200:
  assumes "status (snd (refreshToken L cfg now s req)) = 200"
  shows "\<exists>T c d. cookie_refreshToken req = Some T \<and> T \<noteq> []
    \<and> jwt_verify L T (JWT_REFRESH_SECRET cfg) now = Some c
    \<and> findById s (payload_id (c_payload c)) = Some d \<and> tokenExists d T
    \<and> refreshToken L cfg now s req = rotate L cfg now s d T"
  using assms
  by (auto simp: refreshToken_def json_fail_def split: option.splits if_splits)

lemma rotate_200:
  assumes "status (snd (rotate L cfg now s d T)) = 200" "findById s (uid d) = Some d0"
  shows "\<exists>T'. generateRefreshToken L cfg now d = Some T'
    \<and> findById (fst (rotate L cfg now s d T)) (uid d)
        = Some (d0\<lparr>refreshTokens :=
                     pushRefreshToken L now T' (filter (\<lambda>t. token t \<noteq> T) (refreshTokens d))\<rparr>)"
  using assms
  by (auto simp: rotate_def json_fail_def removeRefreshToken_def addRefreshToken_def
      save_refreshTokens_def Let_def findById_updateOne_same split: option.splits)

lemma jwt_verify_decode:
  "jwt_verify L T secret now = Some c \<Longrightarrow> jwt_decode L T secret = Some c"
  by (auto simp: jwt_verify_def split: option.splits if_splits)

lemma jwt_verify_cases:
  "jwt_decode L T secret = Some c \<Longrightarrow>
   jwt_verify L T secret now = None \<or> jwt_verify L T secret now = Some c"
  by (auto simp: jwt_verify_def)

lemma jwt_verify_None: "jwt_decode L T secret = None \<Longrightarrow> jwt_verify L T secret now = None"
  by (simp add: jwt_verify_def)

lemma failure_of_invalid_token:
  "failure_of (json_fail 401 ''Invalid refresh token'') = Some InvalidToken"
  "failure_of (json_fail 401 ''Invalid or expired refresh token'') = Some InvalidToken"
  by (simp_all add: failure_of_def json_fail_def)

lemma message_json_fail: "message (json_fail st m) = m"
  by (simp add: json_fail_def)

text \<open>A token that decodes to a user whose registry does not hold it is refused, at any
  time, and the collection stays as it is.\<close>

lemma refresh_absent_token:
  assumes T: "cookie_refreshToken req = Some T" "T \<noteq> []"
    and dec: "jwt_decode L T (JWT_REFRESH_SECRET cfg) = Some c"
    and usr: "findById s (payload_id (c_payload c)) = Some d"
    and absent: "\<not> tokenExists d T"
  shows "refreshToken L cfg now s req = (s, json_fail 401 ''Invalid refresh token'')
       \<or> refreshToken L cfg now s req = (s, json_fail 401 ''Invalid or expired refresh token'')"
proof -
  from jwt_verify_cases [OF dec, of now] show ?thesis
  proof
    assume "jwt_verify L T (JWT_REFRESH_SECRET cfg) now = None"
    then show ?thesis using T by (simp add: refreshToken_def)
  next
    assume "jwt_verify L T (JWT_REFRESH_SECRET cfg) now = Some c"
    then show ?thesis using T usr absent by (simp add: refreshToken_def)
  qed
qed

lemma refresh_absent_token_invalid:
  assumes T: "cookie_refreshToken req = Some T" "T \<noteq> []"
    and dec: "jwt_decode L T (JWT_REFRESH_SECRET cfg) = Some c"
    and usr: "findById s (payload_id (c_payload c)) = Some d"
    and absent: "\<not> tokenExists d T"
  shows "fst (refreshToken L cfg now s req) = s
      \<and> failure_of (snd (refreshToken L cfg now s req)) = Some InvalidToken
      \<and> message (snd (refreshToken L cfg now s req))
          \<in> {''Invalid refresh token'', ''Invalid or expired refresh token''}"
proof -
  from refresh_absent_token [OF assms, of now] show ?thesis
  proof
    assume "refreshToken L cfg now s req = (s, json_fail 401 ''Invalid refresh token'')"
    then show ?thesis by (simp add: failure_of_invalid_token message_json_fail)
  next
    assume "refreshToken L cfg now s req = (s, json_fail 401 ''Invalid or expired refresh token'')"
    then show ?thesis by (simp add: failure_of_invalid_token message_json_fail)
  qed
qed

text \<open>
  C6, as the specification states it, fails when the exchange signs the new refresh
  token in the clock second in which the presented one was signed: the payload
  \<open>{id, tokenType}\<close>, \<open>iat\<close> and \<open>exp\<close> are then the same, so the new token is the
  presented token, \<open>removeRefreshToken\<close> takes it out and \<open>addRefreshToken\<close> puts it
  back. Alice's token of second 5 is exchanged at 5500 and is accepted again at 5600.
\<close>

theorem rotation_same_second_counterexample:
  "generateRefreshToken demo_libs demo_config 5000 alice = Some token5
   \<and> map (\<lambda>u. map token (refreshTokens u)) alice_session = [[token5]]
   \<and> status (snd (refreshToken demo_libs demo_config 5500 alice_session
                     (cookie_request token5 None))) = 200
   \<and> cookie (snd (refreshToken demo_libs demo_config 5500 alice_session
                     (cookie_request token5 None)))
       = SetRefreshCookie token5 False ''lax'' 604800000
   \<and> status (snd (refreshToken demo_libs demo_config 5600
                     (fst (refreshToken demo_libs demo_config 5500 alice_session
                             (cookie_request token5 None)))
                     (cookie_request token5 None))) = 200
   \<and> failure_of (snd (refreshToken demo_libs demo_config 5600
                         (fst (refreshToken demo_libs demo_config 5500 alice_session
                                 (cookie_request token5 None)))
                         (cookie_request token5 None))) = None"
  by code_simp

text \<open>
  C6, amended. A refresh exchange that succeeds was given a token that verifies and that
  is in the registry of the user it names (membership is necessary, a valid signature is
  not enough); the exchange leaves the newly signed refresh token in that registry; and,
  provided the newly signed token differs from the presented one, the presented token is
  no longer in the registry and every later refresh that presents it, at any time,
  fails as InvalidToken and changes nothing.
\<close>

theorem rotation_single_use:
  assumes ok: "status (snd (refreshToken L cfg now s req)) = 200"
  shows "\<exists>T c d T' d' s'.
      s' = fst (refreshToken L cfg now s req)
    \<and> cookie_refreshToken req = Some T
    \<and> jwt_verify L T (JWT_REFRESH_SECRET cfg) now = Some c
    \<and> findById s (payload_id (c_payload c)) = Some d
    \<and> tokenExists d T
    \<and> generateRefreshToken L cfg now d = Some T'
    \<and> findById s' (payload_id (c_payload c)) = Some d'
    \<and> tokenExists d' T'
    \<and> (T' \<noteq> T \<longrightarrow>
          \<not> tokenExists d' T
          \<and> (\<forall>now2 req2. cookie_refreshToken req2 = Some T \<longrightarrow>
                fst (refreshToken L cfg now2 s' req2) = s'
                \<and> failure_of (snd (refreshToken L cfg now2 s' req2)) = Some InvalidToken
                \<and> message (snd (refreshToken L cfg now2 s' req2))
                    \<in> {''Invalid refresh token'', ''Invalid or expired refresh token''}))"
proof -
  from find_refresh_200 [OF ok] obtain T c d where
    T: "cookie_refreshToken req = Some T" "T \<noteq> []"
    and ver: "jwt_verify L T (JWT_REFRESH_SECRET cfg) now = Some c"
    and usr: "findById s (payload_id (c_payload c)) = Some d"
    and mem: "tokenExists d T"
    and eq: "refreshToken L cfg now s req = rotate L cfg now s d T" by blast
  have uid: "uid d = payload_id (c_payload c)" by (rule findById_uid [OF usr])
  have ok': "status (snd (rotate L cfg now s d T)) = 200" using ok eq by simp
  have usr': "findById s (uid d) = Some d" using usr uid by simp
  from rotate_200 [OF ok' usr'] obtain T' where
    gen: "generateRefreshToken L cfg now d = Some T'"
    and st: "findById (fst (rotate L cfg now s d T)) (uid d)
        = Some (d\<lparr>refreshTokens :=
                     pushRefreshToken L now T' (filter (\<lambda>t. token t \<noteq> T) (refreshTokens d))\<rparr>)"
    by blast
  define s' where "s' = fst (refreshToken L cfg now s req)"
  define kept where "kept = filter (\<lambda>t. token t \<noteq> T) (refreshTokens d)"
  define d' where "d' = d\<lparr>refreshTokens := pushRefreshToken L now T' kept\<rparr>"
  have reg: "refreshTokens d' = pushRefreshToken L now T' kept" by (simp add: d'_def)
  have st': "findById s' (payload_id (c_payload c)) = Some d'"
    using st by (simp add: s'_def d'_def kept_def eq uid)
  have new: "tokenExists d' T'"
  proof -
    have "last (refreshTokens d') \<in> set (refreshTokens d')"
      unfolding reg using pushRefreshToken_last [of L now T' kept] by (intro last_in_set) simp
    then have "new_entry L now T' \<in> set (refreshTokens d')"
      unfolding reg using pushRefreshToken_last [of L now T' kept] by simp
    then have "token (new_entry L now T') \<in> token ` set (refreshTokens d')" by (rule imageI)
    then show ?thesis by (simp add: tokenExists_iff new_entry_def)
  qed
  have old: "\<not> tokenExists d' T" if "T' \<noteq> T"
  proof -
    have "T \<notin> token ` set kept" by (auto simp: kept_def)
    with that have "T \<notin> insert T' (token ` set kept)" by simp
    with pushRefreshToken_tokens [of L now T' kept] show ?thesis
      unfolding tokenExists_iff reg by blast
  qed
  have again: "fst (refreshToken L cfg now2 s' req2) = s'
      \<and> failure_of (snd (refreshToken L cfg now2 s' req2)) = Some InvalidToken
      \<and> message (snd (refreshToken L cfg now2 s' req2))
          \<in> {''Invalid refresh token'', ''Invalid or expired refresh token''}"
    if "T' \<noteq> T" "cookie_refreshToken req2 = Some T" for now2 req2
    by (rule refresh_absent_token_invalid
        [OF that(2) T(2) jwt_verify_decode [OF ver] st' old [OF that(1)]])
  have tail: "T' \<noteq> T \<longrightarrow>
          \<not> tokenExists d' T
          \<and> (\<forall>now2 req2. cookie_refreshToken req2 = Some T \<longrightarrow>
                fst (refreshToken L cfg now2 s' req2) = s'
                \<and> failure_of (snd (refreshToken L cfg now2 s' req2)) = Some InvalidToken
                \<and> message (snd (refreshToken L cfg now2 s' req2))
                    \<in> {''Invalid refresh token'', ''Invalid or expired refresh token''})"
    using old again by blast
  show ?thesis
    apply (rule exI [of _ T], rule exI [of _ c], rule exI [of _ d], rule exI [of _ T'],
        rule exI [of _ d'], rule exI [of _ s'])
    apply (intro conjI)
            apply (rule s'_def)
           apply (rule T(1))
          apply (rule ver)
         apply (rule usr)
        apply (rule mem)
       apply (rule gen)
      apply (rule st')
     apply (rule new)
    apply (rule tail)
    done
qed

text \<open>
  Witness for C6, amended: Alice's token of second 5 is exchanged at 6500 for the token
  of second 6; presented again at 6600 it is refused as InvalidToken and the collection
  stays as the exchange left it.
\<close>

theorem rotation_single_use_witness:
  "status (snd (refreshToken demo_libs demo_config 6500 alice_session
                  (cookie_request token5 None))) = 200
   \<and> cookie (snd (refreshToken demo_libs demo_config 6500 alice_session
                     (cookie_request token5 None)))
       = SetRefreshCookie ''sr|Ru|ssssss|ddddddd'' False ''lax'' 604800000
   \<and> fst (refreshToken demo_libs demo_config 6600
             (fst (refreshToken demo_libs demo_config 6500 alice_session
                     (cookie_request token5 None)))
             (cookie_request token5 None))
       = fst (refreshToken demo_libs demo_config 6500 alice_session (cookie_request token5 None))
   \<and> failure_of (snd (refreshToken demo_libs demo_config 6600
                         (fst (refreshToken demo_libs demo_config 6500 alice_session
                                 (cookie_request token5 None)))
                         (cookie_request token5 None))) = Some InvalidToken"
proof -
  let ?req = "cookie_request token5 None"
  let ?s' = "fst (refreshToken demo_libs demo_config 6500 alice_session ?req)"
  have ok: "status (snd (refreshToken demo_libs demo_config 6500 alice_session ?req)) = 200"
    by code_simp
  have ck: "cookie (snd (refreshToken demo_libs demo_config 6500 alice_session ?req))
            = SetRefreshCookie ''sr|Ru|ssssss|ddddddd'' False ''lax'' 604800000"
    by code_simp
  have presented: "cookie_refreshToken ?req = Some token5" by (simp add: cookie_request_def)
  have ver: "jwt_verify demo_libs token5 (JWT_REFRESH_SECRET demo_config) 6500
             = Some \<lparr>c_payload = RefreshPayload 1 ''refresh'', c_iat = 5, c_exp = 604805\<rparr>"
    by code_simp
  have usr: "findById alice_session 1 = Some (alice\<lparr>refreshTokens := [new_entry demo_libs 5000 token5]\<rparr>)"
    by code_simp
  have gen: "generateRefreshToken demo_libs demo_config 6500
               (alice\<lparr>refreshTokens := [new_entry demo_libs 5000 token5]\<rparr>)
             = Some ''sr|Ru|ssssss|ddddddd''"
    by code_simp
  have differ: "''sr|Ru|ssssss|ddddddd'' \<noteq> token5" by (simp add: token5_def)
  from rotation_single_use [OF ok] obtain T c d T' where
    T: "cookie_refreshToken ?req = Some T"
    and c: "jwt_verify demo_libs T (JWT_REFRESH_SECRET demo_config) 6500 = Some c"
    and d: "findById alice_session (payload_id (c_payload c)) = Some d"
    and T': "generateRefreshToken demo_libs demo_config 6500 d = Some T'"
    and tail: "T' \<noteq> T \<longrightarrow>
          (\<forall>now2 req2. cookie_refreshToken req2 = Some T \<longrightarrow>
                fst (refreshToken demo_libs demo_config now2 ?s' req2) = ?s'
                \<and> failure_of (snd (refreshToken demo_libs demo_config now2 ?s' req2))
                    = Some InvalidToken)"
    by blast
  from T presented have T_eq: "T = token5" by simp
  from c ver have "c = \<lparr>c_payload = RefreshPayload 1 ''refresh'', c_iat = 5, c_exp = 604805\<rparr>"
    unfolding T_eq by simp
  then have c_eq: "payload_id (c_payload c) = 1" by simp
  from d usr have d_eq: "d = alice\<lparr>refreshTokens := [new_entry demo_libs 5000 token5]\<rparr>"
    unfolding c_eq by simp
  from T' gen have T'_eq: "T' = ''sr|Ru|ssssss|ddddddd''" unfolding d_eq by simp
  from tail differ presented have
    "fst (refreshToken demo_libs demo_config 6600 ?s' ?req) = ?s'
     \<and> failure_of (snd (refreshToken demo_libs demo_config 6600 ?s' ?req)) = Some InvalidToken"
    unfolding T_eq T'_eq by blast
  with ok ck show ?thesis by blast
qed

section \<open>Logging out\<close>

lemma refresh_undecodable:
  assumes "cookie_refreshToken req = Some T" "T \<noteq> []"
    "jwt_decode L T (JWT_REFRESH_SECRET cfg) = None"
  shows "refreshToken L cfg now s req = (s, json_fail 401 ''Invalid or expired refresh token'')"
  using assms by (simp add: refreshToken_def jwt_verify_None)

lemma clearAll_stored:
  "findById s (uid d) = Some d0 \<Longrightarrow>
   findById (fst (clearAllRefreshTokens s d)) (uid d) = Some (d0\<lparr>refreshTokens := []\<rparr>)"
  by (simp add: clearAllRefreshTokens_def save_refreshTokens_def Let_def findById_updateOne_same)

text \<open>
  C7. For an authenticated \<open>logoutAll\<close> of an existing user: the response is 200, the
  user's stored registry is empty afterwards, and every non-empty token that does not
  decode to another user (so every refresh token issued to this user, expired or not),
  presented to \<open>refresh\<close> at any later time on the collection \<open>logoutAll\<close> left, fails
  as InvalidToken and changes nothing.
\<close>

theorem logoutAll_revokes_all:
  assumes who: "req_user req = Some i"
    and usr: "findById s i = Some d"
  shows "\<exists>s' d'.
      s' = fst (logoutAll s req)
    \<and> status (snd (logoutAll s req)) = 200
    \<and> findById s' i = Some d'
    \<and> refreshTokens d' = []
    \<and> (\<forall>L cfg now req2 T.
          cookie_refreshToken req2 = Some T \<and> T \<noteq> []
          \<and> (\<forall>c. jwt_decode L T (JWT_REFRESH_SECRET cfg) = Some c \<longrightarrow> payload_id (c_payload c) = i)
          \<longrightarrow> fst (refreshToken L cfg now s' req2) = s'
            \<and> failure_of (snd (refreshToken L cfg now s' req2)) = Some InvalidToken
            \<and> message (snd (refreshToken L cfg now s' req2))
                \<in> {''Invalid refresh token'', ''Invalid or expired refresh token''})"
proof -
  define s' where "s' = fst (logoutAll s req)"
  define d' where "d' = d\<lparr>refreshTokens := []\<rparr>"
  have uid: "uid d = i" by (rule findById_uid [OF usr])
  have run: "logoutAll s req
             = (fst (clearAllRefreshTokens s d),
                json_ok 200 ''Logged out from all devices successfully'' None ClearRefreshCookie)"
    using who usr by (simp add: logoutAll_def)
  have st: "status (snd (logoutAll s req)) = 200" by (simp add: run json_ok_def)
  have stored: "findById s' i = Some d'"
    using clearAll_stored [of s d d] usr uid by (simp add: s'_def d'_def run)
  have empty: "refreshTokens d' = []" by (simp add: d'_def)
  have none: "\<not> tokenExists d' T" for T by (simp add: tokenExists_def empty)
  have revoked: "fst (refreshToken L cfg now s' req2) = s'
      \<and> failure_of (snd (refreshToken L cfg now s' req2)) = Some InvalidToken
      \<and> message (snd (refreshToken L cfg now s' req2))
          \<in> {''Invalid refresh token'', ''Invalid or expired refresh token''}"
    if T: "cookie_refreshToken req2 = Some T" "T \<noteq> []"
      and mine: "\<forall>c. jwt_decode L T (JWT_REFRESH_SECRET cfg) = Some c \<longrightarrow> payload_id (c_payload c) = i"
    for L cfg now req2 T
  proof (cases "jwt_decode L T (JWT_REFRESH_SECRET cfg)")
    case None
    from refresh_undecodable [OF T None, of now s'] show ?thesis
      by (simp add: failure_of_invalid_token message_json_fail)
  next
    case (Some c)
    with mine have "payload_id (c_payload c) = i" by simp
    with stored have "findById s' (payload_id (c_payload c)) = Some d'" by simp
    from refresh_absent_token_invalid [OF T Some this none] show ?thesis .
  qed
  show ?thesis
    apply (rule exI [of _ s'], rule exI [of _ d'])
    apply (intro conjI)
        apply (rule s'_def)
       apply (rule st)
      apply (rule stored)
     apply (rule empty)
    using revoked apply blast
    done
qed

text \<open>
  Witness for C7: Alice, holding the token of second 5, logs out everywhere; her
  registry is empty and the token, still unexpired at 6000, is refused as InvalidToken.
\<close>

theorem logoutAll_revokes_all_witness:
  "req_user (cookie_request token5 (Some 1)) = Some 1
   \<and> map (\<lambda>u. map token (refreshTokens u)) alice_session = [[token5]]
   \<and> status (snd (refreshToken demo_libs demo_config 6000 alice_session
                     (cookie_request token5 None))) = 200
   \<and> status (snd (logoutAll alice_session (cookie_request token5 (Some 1)))) = 200
   \<and> (\<exists>d'. findById (fst (logoutAll alice_session (cookie_request token5 (Some 1)))) 1 = Some d'
         \<and> refreshTokens d' = [])
   \<and> failure_of (snd (refreshToken demo_libs demo_config 6000
                         (fst (logoutAll alice_session (cookie_request token5 (Some 1))))
                         (cookie_request token5 None))) = Some InvalidToken"
proof -
  let ?out = "cookie_request token5 (Some 1)"
  let ?req = "cookie_request token5 None"
  have who: "req_user ?out = Some 1" by (simp add: cookie_request_def)
  have usr: "findById alice_session 1 = Some (alice\<lparr>refreshTokens := [new_entry demo_libs 5000 token5]\<rparr>)"
    by code_simp
  have before: "map (\<lambda>u. map token (refreshTokens u)) alice_session = [[token5]]"
    "status (snd (refreshToken demo_libs demo_config 6000 alice_session ?req)) = 200"
    by code_simp+
  have T: "cookie_refreshToken ?req = Some token5" "token5 \<noteq> []"
    by (simp_all add: cookie_request_def token5_def)
  have dec: "jwt_decode demo_libs token5 (JWT_REFRESH_SECRET demo_config)
             = Some \<lparr>c_payload = RefreshPayload 1 ''refresh'', c_iat = 5, c_exp = 604805\<rparr>"
    by code_simp
  have mine: "\<forall>c. jwt_decode demo_libs token5 (JWT_REFRESH_SECRET demo_config) = Some c
                \<longrightarrow> payload_id (c_payload c) = 1"
    unfolding dec by auto
  from logoutAll_revokes_all [OF who usr] obtain d' where
    st: "status (snd (logoutAll alice_session ?out)) = 200"
    and reg: "findById (fst (logoutAll alice_session ?out)) 1 = Some d'" "refreshTokens d' = []"
    and revoked: "\<And>L cfg now req2 T.
          cookie_refreshToken req2 = Some T \<and> T \<noteq> []
          \<and> (\<forall>c. jwt_decode L T (JWT_REFRESH_SECRET cfg) = Some c \<longrightarrow> payload_id (c_payload c) = 1)
          \<Longrightarrow> failure_of (snd (refreshToken L cfg now (fst (logoutAll alice_session ?out)) req2))
                = Some InvalidToken"
    by blast
  have "failure_of (snd (refreshToken demo_libs demo_config 6000
                           (fst (logoutAll alice_session ?out)) ?req)) = Some InvalidToken"
    by (rule revoked) (use T mine in blast)
  with who before st reg show ?thesis by blast
qed

text \<open>
  C9. A logout request that carries no authenticated user (\<open>req.user\<close> is absent, as
  on the public route, which attaches no authentication middleware) leaves the whole
  collection, and so every registry, as it was, whatever cookie it presents, and still
  answers 200 "Logout successful".
\<close>

theorem anonymous_logout_changes_nothing:
  assumes "req_user req = None"
  shows "logout s req = (s, logout_ok) \<and> status logout_ok = 200 \<and> success logout_ok
    \<and> message logout_ok = ''Logout successful'' \<and> failure_of logout_ok = None"
  using assms
  by (simp add: logout_def logout_ok_def json_ok_def failure_of_def split: option.splits)

text \<open>
  Witness for C9: Alice's valid token presented to logout without an identity stays in
  her registry and is exchanged afterwards; the same request with her identity removes
  it.
\<close>

theorem anonymous_logout_changes_nothing_witness:
  "req_user (cookie_request token5 None) = None
   \<and> logout alice_session (cookie_request token5 None) = (alice_session, logout_ok)
   \<and> map (\<lambda>u. map token (refreshTokens u)) (fst (logout alice_session (cookie_request token5 None)))
       = [[token5]]
   \<and> status (snd (refreshToken demo_libs demo_config 6000
                     (fst (logout alice_session (cookie_request token5 None)))
                     (cookie_request token5 None))) = 200
   \<and> map (\<lambda>u. map token (refreshTokens u))
        (fst (logout alice_session (cookie_request token5 (Some 1)))) = [[]]"
proof -
  have h: "req_user (cookie_request token5 None) = None" by (simp add: cookie_request_def)
  from anonymous_logout_changes_nothing [OF h, of alice_session]
  have same: "logout alice_session (cookie_request token5 None) = (alice_session, logout_ok)"
    by simp
  have reg: "map (\<lambda>u. map token (refreshTokens u)) alice_session = [[token5]]"
    "status (snd (refreshToken demo_libs demo_config 6000 alice_session
                    (cookie_request token5 None))) = 200"
    "map (\<lambda>u. map token (refreshTokens u))
        (fst (logout alice_session (cookie_request token5 (Some 1)))) = [[]]"
    by code_simp+
  from h same reg show ?thesis by simp
qed

section \<open>Indistinguishable failures\<close>

text \<open>
  C8. A login request (past validation) whose email matches no user and a login request
  with the email of an existing, unlocked, active user and a password the hasher rejects
  get the same response, field by field: status 401 and the message
  "Invalid credentials" (InvalidCredentials).
\<close>

theorem unknown_email_and_wrong_password_alike:
  assumes r1: "validation_errors r1 = []" "findByEmail s1 (body_email r1) = None"
    and r2: "validation_errors r2 = []" "findByEmail s2 (body_email r2) = Some d"
      "\<not> isLocked t2 d" "isActive d" "\<not> comparePassword L d (body_password r2)"
  shows "snd (login L cfg t1 s1 r1) = snd (login L cfg t2 s2 r2)
    \<and> snd (login L cfg t1 s1 r1) = json_fail 401 ''Invalid credentials''
    \<and> failure_of (snd (login L cfg t1 s1 r1)) = Some InvalidCredentials
    \<and> failure_of (snd (login L cfg t2 s2 r2)) = Some InvalidCredentials"
proof -
  have a: "login L cfg t1 s1 r1 = (s1, json_fail 401 ''Invalid credentials'')"
    using r1 by (simp add: login_def)
  have b: "login L cfg t2 s2 r2 = (incLoginAttempts t2 s2 d, json_fail 401 ''Invalid credentials'')"
    using r2 by (rule login_wrong_password)
  have c: "failure_of (json_fail 401 ''Invalid credentials'') = Some InvalidCredentials"
    by (simp add: failure_of_def json_fail_def)
  show ?thesis by (simp add: a b c)
qed

text \<open>
  Witness for C8: a login for an address nobody has and a login for Alice with a wrong
  password are answered alike.
\<close>

theorem unknown_email_and_wrong_password_alike_witness:
  "findByEmail [alice] ''nobody@example.com'' = None
   \<and> findByEmail [alice] ''alice@example.com'' = Some alice
   \<and> \<not> comparePassword demo_libs alice ''not-her-password''
   \<and> snd (login demo_libs demo_config 1000 [alice]
            (login_request ''nobody@example.com'' ''Secur3!pass''))
       = snd (login demo_libs demo_config 2000 [alice]
                (login_request ''alice@example.com'' ''not-her-password''))
   \<and> message (snd (login demo_libs demo_config 2000 [alice]
                      (login_request ''alice@example.com'' ''not-her-password'')))
       = ''Invalid credentials''"
proof -
  let ?r1 = "login_request ''nobody@example.com'' ''Secur3!pass''"
  let ?r2 = "login_request ''alice@example.com'' ''not-her-password''"
  have a: "validation_errors ?r1 = []" "validation_errors ?r2 = []"
    by (simp_all add: login_request_def)
  have b: "findByEmail [alice] (body_email ?r1) = None"
    "findByEmail [alice] (body_email ?r2) = Some alice" by code_simp+
  have c: "\<not> isLocked 2000 alice" "isActive alice"
    "\<not> comparePassword demo_libs alice (body_password ?r2)" by code_simp+
  have e: "body_email ?r1 = ''nobody@example.com''" "body_email ?r2 = ''alice@example.com''"
    "body_password ?r2 = ''not-her-password''" by (simp_all add: login_request_def)
  note alike = unknown_email_and_wrong_password_alike
    [OF a(1) b(1) a(2) b(2) c, where cfg = demo_config and ?t1.0 = 1000]
  from alike have same: "snd (login demo_libs demo_config 1000 [alice] ?r1)
          = snd (login demo_libs demo_config 2000 [alice] ?r2)"
    by (rule conjunct1)
  from alike have first: "snd (login demo_libs demo_config 1000 [alice] ?r1)
          = json_fail 401 ''Invalid credentials''"
    by (rule conjunct1 [OF conjunct2])
  have msg: "message (snd (login demo_libs demo_config 2000 [alice] ?r2)) = ''Invalid credentials''"
    unfolding same [symmetric] first by (rule message_json_fail)
  from b c(3) same msg show ?thesis unfolding e by simp
qed

section \<open>Registration\<close>

lemma save_new_appends:
  "save_new L cfg s d = Some (s1, d1) \<Longrightarrow>
   s1 = s @ [d1] \<and> findById s (uid d1) = None \<and> role d1 = role d \<and> isActive d1 = isActive d
   \<and> isVerified d1 = isVerified d"
  by (auto simp: save_new_def insertOne_def Let_def split: if_splits)

lemma addRefreshToken_new:
  assumes "findById s (uid d) = None"
  shows "fst (addRefreshToken L now tok (s @ [d]) d)
         = s @ [d\<lparr>refreshTokens := pushRefreshToken L now tok (refreshTokens d)\<rparr>]"
  using assms
  by (simp add: addRefreshToken_def save_refreshTokens_def Let_def updateOne_append_new)

lemma register_ignores_extra:
  "register L cfg now i s (req\<lparr>body_extra := extra\<rparr>) = register L cfg now i s req"
  by (simp add: register_def validation_failed_def cong: option.case_cong)

lemma register_created:
  "\<exists>created. fst (register L cfg now i s req) = s @ created
     \<and> list_all (\<lambda>u. role u = RoleUser \<and> isActive u \<and> \<not> isVerified u) created
     \<and> length created \<le> 1
     \<and> (status (snd (register L cfg now i s req)) = 201 \<longrightarrow> length created = 1)"
proof (cases "validation_errors req \<noteq> [] \<or> findOne_email s (toLowerCase (body_email req)) \<noteq> None")
  case True
  then have "fst (register L cfg now i s req) = s @ []"
    "status (snd (register L cfg now i s req)) \<noteq> 201"
    by (auto simp: register_def validation_failed_def json_fail_def split: option.splits)
  then show ?thesis by (intro exI [of _ "[]"]) simp
next
  case False
  define nu where "nu = new_User i (body_fullName req) (toLowerCase (body_email req)) (body_password req)"
  have nu: "role nu = RoleUser \<and> isActive nu \<and> \<not> isVerified nu"
    by (simp add: nu_def new_User_def)
  show ?thesis
  proof (cases "save_new L cfg s nu")
    case None
    with False have "fst (register L cfg now i s req) = s @ []"
      "status (snd (register L cfg now i s req)) \<noteq> 201"
      by (auto simp: register_def nu_def json_fail_def split: option.splits)
    then show ?thesis by (intro exI [of _ "[]"]) simp
  next
    case (Some p)
    obtain s1 d1 where p: "p = (s1, d1)" by (cases p)
    from save_new_appends [OF Some [unfolded p]] nu
    have s1: "s1 = s @ [d1]" and fresh: "findById s (uid d1) = None"
      and d1: "role d1 = RoleUser \<and> isActive d1 \<and> \<not> isVerified d1"
      by simp_all
    show ?thesis
    proof (cases "generateAccessToken L cfg now d1 = None \<or> generateRefreshToken L cfg now d1 = None")
      case True
      with False Some p have "fst (register L cfg now i s req) = s @ [d1]"
        by (auto simp: register_def nu_def [symmetric] s1 split: option.splits)
      with d1 show ?thesis by (intro exI [of _ "[d1]"]) simp
    next
      case notnone: False
      then obtain at rt where g: "generateAccessToken L cfg now d1 = Some at"
        "generateRefreshToken L cfg now d1 = Some rt" by auto
      let ?d2 = "d1\<lparr>refreshTokens := pushRefreshToken L now rt (refreshTokens d1)\<rparr>"
      have "fst (register L cfg now i s req) = fst (addRefreshToken L now rt (s @ [d1]) d1)"
        using False Some p g
        by (auto simp: register_def nu_def [symmetric] s1 split: option.splits prod.splits)
      then have "fst (register L cfg now i s req) = s @ [?d2]"
        using addRefreshToken_new [OF fresh] by simp
      moreover have "role ?d2 = RoleUser \<and> isActive ?d2 \<and> \<not> isVerified ?d2" using d1 by simp
      ultimately show ?thesis by (intro exI [of _ "[?d2]"]) simp
    qed
  qed
qed

text \<open>
  C10. Whatever a registration request carries, the collection after \<open>register\<close> is the
  collection before it followed by at most one new document, exactly one when the
  response is 201; a new document has role "user", is active and is not verified; and
  the fields of the body other than \<open>fullName\<close>, \<open>email\<close> and \<open>password\<close> have no
  effect on the outcome at all.
\<close>

theorem register_assigns_defaults:
  "\<exists>created. fst (register L cfg now i s req) = s @ created
     \<and> list_all (\<lambda>u. role u = RoleUser \<and> isActive u \<and> \<not> isVerified u) created
     \<and> length created \<le> 1
     \<and> (status (snd (register L cfg now i s req)) = 201 \<longrightarrow> length created = 1)
     \<and> (\<forall>extra. register L cfg now i s (req\<lparr>body_extra := extra\<rparr>) = register L cfg now i s req)"
proof -
  have "\<forall>extra. register L cfg now i s (req\<lparr>body_extra := extra\<rparr>) = register L cfg now i s req"
    by (simp add: register_ignores_extra)
  with register_created [of L cfg now i s req] show ?thesis by blast
qed

text \<open>
  Witness for C10: Bob registers and sends \<open>role = admin\<close>, \<open>isVerified = true\<close> and
  \<open>isActive = false\<close> along; his document is created with role "user", active and
  not verified.
\<close>

theorem register_assigns_defaults_witness:
  "status (snd (register demo_libs demo_config 0 2 [alice] greedy_registration)) = 201
   \<and> body_extra greedy_registration
       = [(''role'', ''admin''), (''isVerified'', ''true''), (''isActive'', ''false'')]
   \<and> (\<exists>u. fst (register demo_libs demo_config 0 2 [alice] greedy_registration) = [alice, u]
         \<and> role u = RoleUser \<and> isActive u \<and> \<not> isVerified u)
   \<and> map email (fst (register demo_libs demo_config 0 2 [alice] greedy_registration))
       = [''alice@example.com'', ''bob@example.com'']"
proof -
  have ok: "status (snd (register demo_libs demo_config 0 2 [alice] greedy_registration)) = 201"
    by code_simp
  have extra: "body_extra greedy_registration
       = [(''role'', ''admin''), (''isVerified'', ''true''), (''isActive'', ''false'')]"
    by (simp add: greedy_registration_def)
  have emails: "map email (fst (register demo_libs demo_config 0 2 [alice] greedy_registration))
       = [''alice@example.com'', ''bob@example.com'']"
    by code_simp
  from register_assigns_defaults [of demo_libs demo_config 0 2 "[alice]" greedy_registration] ok
  obtain created where c: "fst (register demo_libs demo_config 0 2 [alice] greedy_registration)
        = [alice] @ created"
    "list_all (\<lambda>u. role u = RoleUser \<and> isActive u \<and> \<not> isVerified u) created"
    "length created = 1"
    by blast
  from c(3) obtain u where u: "created = [u]" by (cases created) auto
  with c(1,2) have "\<exists>u. fst (register demo_libs demo_config 0 2 [alice] greedy_registration) = [alice, u]
         \<and> role u = RoleUser \<and> isActive u \<and> \<not> isVerified u"
    by simp
  with ok extra emails show ?thesis by blast
qed

end
